theory Spec2Isabelle
  imports Complex_Main "HOL-Library.Log_Nat" "HOL-Library.Product_Lexorder"
begin

section \<open>Numbers of the runtime\<close>

text \<open>
  A number of the browser runtime is an IEEE 754 double: not-a-number, one of the two
  infinities, or a finite value, kept here as the exact rational it denotes. The sign of
  zero is not tracked. \<open>fl\<close> rounds a rational to the nearest double, ties to the even
  significand, with gradual underflow below \<open>2 ^ - 1022\<close>; \<open>rnd\<close> adds the overflow to
  infinity. Every arithmetic operation of the runtime is the exact operation followed by
  \<open>rnd\<close>.
\<close>

datatype js_number = NaN | Infinity | NegInfinity | Num rat

definition pow2 :: "int \<Rightarrow> rat" where
  "pow2 e = (if 0 \<le> e then 2 ^ nat e else 1 / 2 ^ nat (- e))"

text \<open>The binary exponent of a positive rational: \<open>pow2 (ilog2 q) \<le> q < pow2 (ilog2 q + 1)\<close>.\<close>

definition ilog2 :: "rat \<Rightarrow> int" where
  "ilog2 q = (if 1 \<le> q then int (floorlog 2 (nat \<lfloor>q\<rfloor>)) - 1
              else - int (floorlog 2 (nat (\<lceil>1 / q\<rceil> - 1))))"

definition round_half_even :: "rat \<Rightarrow> int" where
  "round_half_even x =
     (let f = \<lfloor>x\<rfloor>; r = x - of_int f
      in if r < 1 / 2 then f else if 1 / 2 < r then f + 1 else if even f then f else f + 1)"

definition fl :: "rat \<Rightarrow> rat" where
  "fl q = (if q = 0 then 0
           else let a = \<bar>q\<bar>; e = max (ilog2 a) (- 1022); u = pow2 (e - 52)
                in sgn q * of_int (round_half_even (a / u)) * u)"

definition rnd :: "rat \<Rightarrow> js_number" where
  "rnd q = (let d = fl q
            in if 2 ^ 1024 \<le> d then Infinity
               else if d \<le> - (2 ^ 1024) then NegInfinity else Num d)"

fun js_add :: "js_number \<Rightarrow> js_number \<Rightarrow> js_number" where
  "js_add NaN y = NaN"
| "js_add x NaN = NaN"
| "js_add Infinity NegInfinity = NaN"
| "js_add NegInfinity Infinity = NaN"
| "js_add Infinity y = Infinity"
| "js_add NegInfinity y = NegInfinity"
| "js_add x Infinity = Infinity"
| "js_add x NegInfinity = NegInfinity"
| "js_add (Num a) (Num b) = rnd (a + b)"

fun js_mul :: "js_number \<Rightarrow> js_number \<Rightarrow> js_number" where
  "js_mul NaN y = NaN"
| "js_mul x NaN = NaN"
| "js_mul Infinity Infinity = Infinity"
| "js_mul Infinity NegInfinity = NegInfinity"
| "js_mul NegInfinity Infinity = NegInfinity"
| "js_mul NegInfinity NegInfinity = Infinity"
| "js_mul Infinity (Num b) = (if b = 0 then NaN else if 0 < b then Infinity else NegInfinity)"
| "js_mul NegInfinity (Num b) = (if b = 0 then NaN else if 0 < b then NegInfinity else Infinity)"
| "js_mul (Num a) Infinity = (if a = 0 then NaN else if 0 < a then Infinity else NegInfinity)"
| "js_mul (Num a) NegInfinity = (if a = 0 then NaN else if 0 < a then NegInfinity else Infinity)"
| "js_mul (Num a) (Num b) = rnd (a * b)"

text \<open>Division by zero does not raise: it is not-a-number for \<open>0 / 0\<close> and an infinity
  otherwise.\<close>

fun js_div :: "js_number \<Rightarrow> js_number \<Rightarrow> js_number" where
  "js_div NaN y = NaN"
| "js_div x NaN = NaN"
| "js_div Infinity (Num b) = (if 0 \<le> b then Infinity else NegInfinity)"
| "js_div NegInfinity (Num b) = (if 0 \<le> b then NegInfinity else Infinity)"
| "js_div Infinity y = NaN"
| "js_div NegInfinity y = NaN"
| "js_div (Num a) (Num b) =
     (if b = 0 then (if a = 0 then NaN else if 0 < a then Infinity else NegInfinity)
      else rnd (a / b))"
| "js_div (Num a) y = Num 0"

text \<open>\<^verbatim>\<open>Math.round\<close>: the nearest integer, a tie going up.\<close>

fun Math_round :: "js_number \<Rightarrow> js_number" where
  "Math_round (Num q) = Num (of_int \<lfloor>q + 1 / 2\<rfloor>)"
| "Math_round x = x"

text \<open>\<^verbatim>\<open>x.toFixed(1)\<close>, as the decimal its text spells: the multiple of a tenth nearest
  to \<open>x\<close>, the larger one on a tie.\<close>

fun toFixed1 :: "js_number \<Rightarrow> js_number" where
  "toFixed1 (Num q) = Num (of_int \<lfloor>10 * q + 1 / 2\<rfloor> / 10)"
| "toFixed1 x = x"

text \<open>\<^verbatim>\<open>x || 0\<close> on a number: not-a-number and zero are the falsy numbers.\<close>

fun or_zero :: "js_number \<Rightarrow> js_number" where
  "or_zero NaN = Num 0"
| "or_zero x = x"

text \<open>\<^verbatim>\<open>s || null\<close> on a string: the empty string is the falsy one.\<close>

definition or_null :: "string \<Rightarrow> string option" where
  "or_null s = (if s = [] then None else Some s)"

subsection \<open>Reading numbers from text\<close>

text \<open>
  \<^verbatim>\<open>parseInt\<close> with no radix and \<^verbatim>\<open>parseFloat\<close>. Both skip leading white space (the
  ASCII white space here) and read the longest prefix that is a numeral; what follows it
  is ignored. \<^verbatim>\<open>parseInt\<close> reads a sign and decimal digits, or hexadecimal digits after
  \<^verbatim>\<open>0x\<close>. \<^verbatim>\<open>parseFloat\<close> reads a sign and \<^verbatim>\<open>Infinity\<close>, or digits with an
  optional fraction and an optional exponent.
\<close>

definition is_ws :: "char \<Rightarrow> bool" where
  "is_ws c = (of_char c \<in> {9, 10, 11, 12, 13, 32 :: nat})"

definition is_digit :: "char \<Rightarrow> bool" where
  "is_digit c = (48 \<le> (of_char c :: nat) \<and> (of_char c :: nat) \<le> 57)"

definition is_hex_digit :: "char \<Rightarrow> bool" where
  "is_hex_digit c = (is_digit c \<or> (97 \<le> (of_char c :: nat) \<and> (of_char c :: nat) \<le> 102)
                      \<or> (65 \<le> (of_char c :: nat) \<and> (of_char c :: nat) \<le> 70))"

definition digit_val :: "char \<Rightarrow> nat" where
  "digit_val c = (if is_digit c then of_char c - 48
                  else if 97 \<le> (of_char c :: nat) then of_char c - 87 else of_char c - 55)"

definition digits_val :: "nat \<Rightarrow> string \<Rightarrow> nat" where
  "digits_val radix ds = foldl (\<lambda>n c. radix * n + digit_val c) 0 ds"

definition strip_sign :: "string \<Rightarrow> bool \<times> string" where
  "strip_sign s = (case s of [] \<Rightarrow> (False, [])
                   | c # cs \<Rightarrow> if c = CHR ''-'' then (True, cs)
                             else if c = CHR ''+'' then (False, cs) else (False, s))"

definition parseInt :: "string \<Rightarrow> js_number" where
  "parseInt str =
     (let (neg, s) = strip_sign (dropWhile is_ws str);
          hex = (take 2 s = ''0x'' \<or> take 2 s = ''0X'');
          z = (if hex then takeWhile is_hex_digit (drop 2 s) else takeWhile is_digit s);
          n = of_nat (digits_val (if hex then 16 else 10) z)
      in if z = [] then NaN else rnd (if neg then - n else n))"

definition pow10 :: "int \<Rightarrow> rat" where
  "pow10 e = (if 0 \<le> e then 10 ^ nat e else 1 / 10 ^ nat (- e))"

text \<open>The exponent part after the mantissa, if there is a well-formed one.\<close>

definition exponent_part :: "string \<Rightarrow> int" where
  "exponent_part s =
     (case s of [] \<Rightarrow> 0
      | c # cs \<Rightarrow>
          if c = CHR ''e'' \<or> c = CHR ''E''
          then (let (neg, t) = strip_sign cs; ds = takeWhile is_digit t
                in if ds = [] then 0
                   else if neg then - int (digits_val 10 ds) else int (digits_val 10 ds))
          else 0)"

definition parseFloat :: "string \<Rightarrow> js_number" where
  "parseFloat str =
     (let (neg, s) = strip_sign (dropWhile is_ws str)
      in if take 8 s = ''Infinity'' then (if neg then NegInfinity else Infinity)
         else
           (let ip = takeWhile is_digit s;
                r1 = dropWhile is_digit s;
                has_dot = (r1 \<noteq> [] \<and> hd r1 = CHR ''.'');
                fp = (if has_dot then takeWhile is_digit (tl r1) else []);
                r2 = (if has_dot then dropWhile is_digit (tl r1) else r1);
                m = of_nat (digits_val 10 (ip @ fp)) * pow10 (exponent_part r2 - int (length fp))
            in if ip = [] \<and> fp = [] then NaN else rnd (if neg then - m else m)))"

section \<open>The persisted schema\<close>

text \<open>
  The five tables of the migration and the row types of \<^verbatim>\<open>lib/supabase\<close>.
  Identifiers are the text of a uuid. A \<^verbatim>\<open>timestamptz\<close> is the number of milliseconds
  since the epoch, which is what \<^verbatim>\<open>new Date(s)\<close> reads from the ISO text the store
  returns. A nullable column is an \<open>option\<close>. The owner column is an \<open>option\<close> as
  well: the policies compare it with \<^verbatim>\<open>auth.uid()\<close> under SQL's three-valued
  equality, and a client payload may leave it out.
\<close>

type_synonym uuid = string
type_synonym timestamp = int

record owned =
  row_id :: uuid
  user_id :: "uuid option"
  created_at :: timestamp

record company = owned +
  name :: string
  industry :: "string option"
  website :: "string option"
  company_phone :: "string option"
  company_email :: "string option"
  address :: "string option"
  company_notes :: "string option"
  company_updated_at :: timestamp

text \<open>Contacts, deals, tasks and activities all carry \<^verbatim>\<open>company_id uuid REFERENCES
  companies(id) ON DELETE SET NULL\<close>.\<close>

record linked = owned +
  company_id :: "uuid option"

record contact = linked +
  first_name :: string
  last_name :: string
  email :: "string option"
  phone :: "string option"
  title :: "string option"
  contact_notes :: "string option"
  contact_updated_at :: timestamp

text \<open>A deal's \<^verbatim>\<open>value\<close> and \<^verbatim>\<open>probability\<close> are nullable columns with a
  default. The \<^verbatim>\<open>value\<close> held here is the decimal of the \<^verbatim>\<open>numeric\<close> column; the
  client receives it as a JSON number and reads it as the nearest double.\<close>

record deal = linked +
  deal_title :: string
  "value" :: "rat option"
  stage :: string
  probability :: "int option"
  expected_close_date :: "string option"
  deal_contact_id :: "uuid option"
  deal_notes :: "string option"
  deal_updated_at :: timestamp

datatype task_priority = low | medium | high

datatype task_status = pending | in_progress | completed

record task = linked +
  task_title :: string
  description :: "string option"
  due_date :: "timestamp option"
  priority :: task_priority
  status :: task_status
  task_contact_id :: "uuid option"
  task_deal_id :: "uuid option"
  updated_at :: timestamp

datatype activity_type = Call | Email | Meeting | Note

record activity = linked +
  type :: activity_type
  subject :: string
  activity_description :: "string option"
  activity_date :: timestamp
  contact_id :: "uuid option"
  deal_id :: "uuid option"

record database =
  companies_rows :: "company list"
  contacts_rows :: "contact list"
  deals_rows :: "deal list"
  tasks_rows :: "task list"
  activities_rows :: "activity list"

section \<open>Row level security\<close>

text \<open>
  Every table has row level security enabled and four policies, all for the role
  \<^verbatim>\<open>authenticated\<close> and all with the expression \<^verbatim>\<open>auth.uid() = user_id\<close>.
  A policy expression admits a row only when it evaluates to true; null does not.
\<close>

datatype table_name = companies | contacts | deals | tasks | activities

datatype command = SELECT | INSERT | UPDATE | DELETE

datatype session = Anon | Authenticated uuid

datatype storage_error = RlsViolation | NetworkError

fun auth_uid :: "session \<Rightarrow> uuid option" where
  "auth_uid Anon = None"
| "auth_uid (Authenticated u) = Some u"

definition sql_eq :: "'a option \<Rightarrow> 'a option \<Rightarrow> bool option" where
  "sql_eq a b = (case a of None \<Rightarrow> None
                 | Some x \<Rightarrow> (case b of None \<Rightarrow> None | Some y \<Rightarrow> Some (x = y)))"

definition uid_is_user_id :: "session \<Rightarrow> ('a owned_scheme) \<Rightarrow> bool" where
  "uid_is_user_id s r = (sql_eq (auth_uid s) (user_id r) = Some True)"

text \<open>The \<^verbatim>\<open>USING\<close> clause of the policy for a table and a command, if the policy
  has one.\<close>

fun using_clause :: "table_name \<Rightarrow> command \<Rightarrow> (session \<Rightarrow> ('a owned_scheme) \<Rightarrow> bool) option" where
  "using_clause companies SELECT = Some uid_is_user_id"
| "using_clause companies INSERT = None"
| "using_clause companies UPDATE = Some uid_is_user_id"
| "using_clause companies DELETE = Some uid_is_user_id"
| "using_clause contacts SELECT = Some uid_is_user_id"
| "using_clause contacts INSERT = None"
| "using_clause contacts UPDATE = Some uid_is_user_id"
| "using_clause contacts DELETE = Some uid_is_user_id"
| "using_clause deals SELECT = Some uid_is_user_id"
| "using_clause deals INSERT = None"
| "using_clause deals UPDATE = Some uid_is_user_id"
| "using_clause deals DELETE = Some uid_is_user_id"
| "using_clause tasks SELECT = Some uid_is_user_id"
| "using_clause tasks INSERT = None"
| "using_clause tasks UPDATE = Some uid_is_user_id"
| "using_clause tasks DELETE = Some uid_is_user_id"
| "using_clause activities SELECT = Some uid_is_user_id"
| "using_clause activities INSERT = None"
| "using_clause activities UPDATE = Some uid_is_user_id"
| "using_clause activities DELETE = Some uid_is_user_id"

text \<open>The \<^verbatim>\<open>WITH CHECK\<close> clause of the policy for a table and a command.\<close>

fun with_check_clause :: "table_name \<Rightarrow> command \<Rightarrow> (session \<Rightarrow> ('a owned_scheme) \<Rightarrow> bool) option" where
  "with_check_clause companies SELECT = None"
| "with_check_clause companies INSERT = Some uid_is_user_id"
| "with_check_clause companies UPDATE = Some uid_is_user_id"
| "with_check_clause companies DELETE = None"
| "with_check_clause contacts SELECT = None"
| "with_check_clause contacts INSERT = Some uid_is_user_id"
| "with_check_clause contacts UPDATE = Some uid_is_user_id"
| "with_check_clause contacts DELETE = None"
| "with_check_clause deals SELECT = None"
| "with_check_clause deals INSERT = Some uid_is_user_id"
| "with_check_clause deals UPDATE = Some uid_is_user_id"
| "with_check_clause deals DELETE = None"
| "with_check_clause tasks SELECT = None"
| "with_check_clause tasks INSERT = Some uid_is_user_id"
| "with_check_clause tasks UPDATE = Some uid_is_user_id"
| "with_check_clause tasks DELETE = None"
| "with_check_clause activities SELECT = None"
| "with_check_clause activities INSERT = Some uid_is_user_id"
| "with_check_clause activities UPDATE = Some uid_is_user_id"
| "with_check_clause activities DELETE = None"

text \<open>The policies are granted \<^verbatim>\<open>TO authenticated\<close>; with row level security
  enabled, a role that no policy names is denied every row.\<close>

fun policy_applies :: "session \<Rightarrow> bool" where
  "policy_applies Anon = False"
| "policy_applies (Authenticated u) = True"

definition passes_using :: "session \<Rightarrow> table_name \<Rightarrow> command \<Rightarrow> ('a owned_scheme) \<Rightarrow> bool" where
  "passes_using s t c r =
     (policy_applies s \<and> (case using_clause t c of None \<Rightarrow> True | Some p \<Rightarrow> p s r))"

definition passes_check :: "session \<Rightarrow> table_name \<Rightarrow> command \<Rightarrow> ('a owned_scheme) \<Rightarrow> bool" where
  "passes_check s t c r =
     (policy_applies s \<and> (case with_check_clause t c of None \<Rightarrow> True | Some p \<Rightarrow> p s r))"

text \<open>
  The four operations of the gateway on one table. A row that fails a \<^verbatim>\<open>USING\<close>
  clause is skipped without an error; a new row that fails a \<^verbatim>\<open>WITH CHECK\<close> clause
  aborts the statement. An update or delete filtered on \<^verbatim>\<open>id\<close> reads the row, so the
  select policy applies to it as well. The flag \<open>online\<close> is the transport: when it is
  down the call returns an error and the table is as before.
\<close>

definition select_rows :: "session \<Rightarrow> table_name \<Rightarrow> ('a owned_scheme) list \<Rightarrow> ('a owned_scheme) list" where
  "select_rows s t rows = filter (passes_using s t SELECT) rows"

definition targeted :: "session \<Rightarrow> table_name \<Rightarrow> command \<Rightarrow> uuid \<Rightarrow> ('a owned_scheme) \<Rightarrow> bool" where
  "targeted s t c i r = (row_id r = i \<and> passes_using s t SELECT r \<and> passes_using s t c r)"

definition update_by_id ::
  "bool \<Rightarrow> session \<Rightarrow> table_name \<Rightarrow> uuid \<Rightarrow> (('a owned_scheme) \<Rightarrow> ('a owned_scheme)) \<Rightarrow>
   ('a owned_scheme) list \<Rightarrow> storage_error + ('a owned_scheme) list" where
  "update_by_id online s t i patch rows =
     (if \<not> online then Inl NetworkError
      else if list_ex (\<lambda>r. targeted s t UPDATE i r \<and> \<not> passes_check s t UPDATE (patch r)) rows
      then Inl RlsViolation
      else Inr (map (\<lambda>r. if targeted s t UPDATE i r then patch r else r) rows))"

definition delete_by_id ::
  "bool \<Rightarrow> session \<Rightarrow> table_name \<Rightarrow> uuid \<Rightarrow> ('a owned_scheme) list \<Rightarrow>
   storage_error + ('a owned_scheme) list" where
  "delete_by_id online s t i rows =
     (if \<not> online then Inl NetworkError
      else Inr (filter (\<lambda>r. \<not> targeted s t DELETE i r) rows))"

definition insert_row ::
  "bool \<Rightarrow> session \<Rightarrow> table_name \<Rightarrow> ('a owned_scheme) \<Rightarrow> ('a owned_scheme) list \<Rightarrow>
   storage_error + ('a owned_scheme) list" where
  "insert_row online s t r rows =
     (if \<not> online then Inl NetworkError
      else if \<not> passes_check s t INSERT r then Inl RlsViolation
      else Inr (rows @ [r]))"


text \<open>
  Deleting a company fires \<^verbatim>\<open>ON DELETE SET NULL\<close> on the \<^verbatim>\<open>company_id\<close> of the
  four referencing tables. The referential action is the store's own and is not subject
  to the policies.
\<close>

definition on_delete_set_null :: "uuid list \<Rightarrow> ('a linked_scheme) list \<Rightarrow> ('a linked_scheme) list" where
  "on_delete_set_null gone rows =
     map (\<lambda>r. case company_id r of None \<Rightarrow> r
              | Some c \<Rightarrow> if c \<in> set gone then r\<lparr>company_id := None\<rparr> else r) rows"

definition delete_company :: "bool \<Rightarrow> session \<Rightarrow> uuid \<Rightarrow> database \<Rightarrow> storage_error + database" where
  "delete_company online s i db =
     (case delete_by_id online s companies i (companies_rows db) of
        Inl e \<Rightarrow> Inl e
      | Inr rows' \<Rightarrow>
          (let gone = map row_id (filter (targeted s companies DELETE i) (companies_rows db))
           in Inr (db\<lparr>companies_rows := rows',
                       contacts_rows := on_delete_set_null gone (contacts_rows db),
                       deals_rows := on_delete_set_null gone (deals_rows db),
                       tasks_rows := on_delete_set_null gone (tasks_rows db),
                       activities_rows := on_delete_set_null gone (activities_rows db)\<rparr>)))"

text \<open>A call a screen issues through the gateway: the statement and its table.\<close>

datatype request = Request command table_name

section \<open>The Tasks screen\<close>

record tasks_screen =
  tasks_list :: "task list"
  tasks_loading :: bool

text \<open>\<^verbatim>\<open>.order('due_date', { ascending: true, nullsFirst: false })\<close>\<close>

definition order_tasks :: "task list \<Rightarrow> task list" where
  "order_tasks rows =
     sort_key (\<lambda>r. (due_date r = None, case due_date r of None \<Rightarrow> 0 | Some d \<Rightarrow> d)) rows"

definition fetchTasks :: "bool \<Rightarrow> session \<Rightarrow> database \<Rightarrow> tasks_screen \<Rightarrow> tasks_screen" where
  "fetchTasks online s db scr =
     (if online
      then scr\<lparr>tasks_list := order_tasks (select_rows s tasks (tasks_rows db)),
               tasks_loading := False\<rparr>
      else scr\<lparr>tasks_loading := False\<rparr>)"

text \<open>The quick transition: the payload is \<^verbatim>\<open>{ status, updated_at }\<close>, the filter is
  \<^verbatim>\<open>.eq('id', taskId)\<close>; the list is fetched again only when the update returned no
  error.\<close>

definition updateTaskStatus ::
  "bool \<Rightarrow> bool \<Rightarrow> session \<Rightarrow> timestamp \<Rightarrow> uuid \<Rightarrow> task_status \<Rightarrow>
   database \<times> tasks_screen \<Rightarrow> request list \<times> database \<times> tasks_screen" where
  "updateTaskStatus update_online fetch_online s now taskId newStatus st =
     (case st of (db, scr) \<Rightarrow>
        (case update_by_id update_online s tasks taskId
                (\<lambda>r. r\<lparr>status := newStatus, updated_at := now\<rparr>) (tasks_rows db) of
           Inl e \<Rightarrow> ([Request UPDATE tasks], db, scr)
         | Inr rows' \<Rightarrow>
             ([Request UPDATE tasks, Request SELECT tasks],
              db\<lparr>tasks_rows := rows'\<rparr>,
              fetchTasks fetch_online s (db\<lparr>tasks_rows := rows'\<rparr>) scr)))"

text \<open>The due-date badge. \<open>now\<close> is \<^verbatim>\<open>new Date()\<close> at the render.\<close>

definition isOverdue :: "timestamp \<Rightarrow> timestamp option \<Rightarrow> bool" where
  "isOverdue now dueDate = (case dueDate of None \<Rightarrow> False | Some d \<Rightarrow> d < now)"

text \<open>The red date and the alert icon of a rendered task: inside
  \<^verbatim>\<open>{task.due_date && (...)}\<close>, shown when \<^verbatim>\<open>isOverdue(task.due_date)\<close>.\<close>

definition overdue_badge :: "timestamp \<Rightarrow> task \<Rightarrow> bool" where
  "overdue_badge now t = (due_date t \<noteq> None \<and> isOverdue now (due_date t))"

section \<open>The Deals screen\<close>

record deal_form =
  form_title :: string
  form_value :: string
  form_stage :: string
  form_probability :: string
  form_expected_close_date :: string
  form_company_id :: string
  form_contact_id :: string
  form_notes :: string

record deal_data =
  data_title :: string
  data_value :: js_number
  data_stage :: string
  data_probability :: js_number
  data_expected_close_date :: "string option"
  data_company_id :: "string option"
  data_contact_id :: "string option"
  data_notes :: string
  data_updated_at :: timestamp

record deals_screen =
  deals_list :: "(deal \<times> company option \<times> contact option) list"
  deals_loading :: bool
  deal_modal_open :: bool
  editingDeal :: "deal option"
  formData :: deal_form

text \<open>\<^verbatim>\<open>.select('*, company:companies(*), contact:contacts(*)').order('created_at',
  { ascending: false })\<close>: each deal with the company and the contact it references,
  where the caller may see them.\<close>

definition fetchDeals :: "bool \<Rightarrow> session \<Rightarrow> database \<Rightarrow> deals_screen \<Rightarrow> deals_screen" where
  "fetchDeals online s db scr =
     (if online
      then scr\<lparr>deals_list :=
                 map (\<lambda>d. (d,
                           find (\<lambda>c. Some (row_id c) = company_id d)
                                (select_rows s companies (companies_rows db)),
                           find (\<lambda>c. Some (row_id c) = deal_contact_id d)
                                (select_rows s contacts (contacts_rows db))))
                     (sort_key (\<lambda>d. - created_at d) (select_rows s deals (deals_rows db))),
               deals_loading := False\<rparr>
      else scr\<lparr>deals_loading := False\<rparr>)"

definition updateDealStage ::
  "bool \<Rightarrow> bool \<Rightarrow> session \<Rightarrow> timestamp \<Rightarrow> uuid \<Rightarrow> string \<Rightarrow>
   database \<times> deals_screen \<Rightarrow> request list \<times> database \<times> deals_screen" where
  "updateDealStage update_online fetch_online s now dealId newStage st =
     (case st of (db, scr) \<Rightarrow>
        (case update_by_id update_online s deals dealId
                (\<lambda>r. r\<lparr>stage := newStage, deal_updated_at := now\<rparr>) (deals_rows db) of
           Inl e \<Rightarrow> ([Request UPDATE deals], db, scr)
         | Inr rows' \<Rightarrow>
             ([Request UPDATE deals, Request SELECT deals],
              db\<lparr>deals_rows := rows'\<rparr>,
              fetchDeals fetch_online s (db\<lparr>deals_rows := rows'\<rparr>) scr)))"

text \<open>
  \<^verbatim>\<open>handleSubmit\<close> builds \<^verbatim>\<open>dealData\<close> from the form. The \<^verbatim>\<open>min\<close> and \<^verbatim>\<open>max\<close> of
  the probability input are attributes of the form markup; \<^verbatim>\<open>handleSubmit\<close> itself reads
  whatever text the form state holds.
\<close>

definition dealData :: "timestamp \<Rightarrow> deal_form \<Rightarrow> deal_data" where
  "dealData now fd =
     \<lparr>data_title = form_title fd,
      data_value = or_zero (parseFloat (form_value fd)),
      data_stage = form_stage fd,
      data_probability = or_zero (parseInt (form_probability fd)),
      data_expected_close_date = or_null (form_expected_close_date fd),
      data_company_id = or_null (form_company_id fd),
      data_contact_id = or_null (form_contact_id fd),
      data_notes = form_notes fd,
      data_updated_at = now\<rparr>"

text \<open>
  The payload travels as JSON, where not-a-number and the infinities are \<^verbatim>\<open>null\<close>.
  The \<^verbatim>\<open>numeric\<close> column takes any finite number. It keeps the decimal text the client
  sent, the shortest one that reads back as the double; the row here keeps the value of
  that double, which the client reads back as the same number. The \<^verbatim>\<open>integer\<close> column takes a whole
  number of 32 bits and refuses anything else. Neither column has a \<^verbatim>\<open>CHECK\<close>
  constraint. The foreign-key check of a write is not modelled.
\<close>

fun to_numeric :: "js_number \<Rightarrow> rat option" where
  "to_numeric (Num q) = Some q"
| "to_numeric x = None"

datatype column_error = InvalidInteger

fun to_integer :: "js_number \<Rightarrow> column_error + int option" where
  "to_integer (Num q) =
     (if q = of_int \<lfloor>q\<rfloor> \<and> - (2 ^ 31) \<le> q \<and> q < 2 ^ 31 then Inr (Some \<lfloor>q\<rfloor>)
      else Inl InvalidInteger)"
| "to_integer x = Inr None"

definition write_deal_data :: "deal_data \<Rightarrow> int option \<Rightarrow> deal \<Rightarrow> deal" where
  "write_deal_data data p r =
     r\<lparr>company_id := data_company_id data,
       deal_title := data_title data,
       value := to_numeric (data_value data),
       stage := data_stage data,
       probability := p,
       expected_close_date := data_expected_close_date data,
       deal_contact_id := data_contact_id data,
       deal_notes := Some (data_notes data),
       deal_updated_at := data_updated_at data\<rparr>"

text \<open>The row an insert of \<^verbatim>\<open>dealData\<close> proposes: the payload has no \<^verbatim>\<open>id\<close>,
  \<^verbatim>\<open>user_id\<close> or \<^verbatim>\<open>created_at\<close>, so the first and the last take their column
  defaults and the owner, which has no default, is null.\<close>

definition new_deal_row :: "uuid \<Rightarrow> timestamp \<Rightarrow> deal_data \<Rightarrow> int option \<Rightarrow> deal" where
  "new_deal_row new_id server_now data p =
     \<lparr>row_id = new_id, user_id = None, created_at = server_now,
      company_id = data_company_id data,
      deal_title = data_title data,
      value = to_numeric (data_value data),
      stage = data_stage data,
      probability = p,
      expected_close_date = data_expected_close_date data,
      deal_contact_id = data_contact_id data,
      deal_notes = Some (data_notes data),
      deal_updated_at = data_updated_at data\<rparr>"

datatype write_error = Storage storage_error | Column column_error

definition save_deal ::
  "bool \<Rightarrow> session \<Rightarrow> uuid \<Rightarrow> timestamp \<Rightarrow> deal option \<Rightarrow> deal_data \<Rightarrow> deal list \<Rightarrow>
   write_error + deal list" where
  "save_deal online s new_id server_now editing data rows =
     (if \<not> online then Inl (Storage NetworkError)
      else case to_integer (data_probability data) of
             Inl e \<Rightarrow> Inl (Column e)
           | Inr p \<Rightarrow>
               (case (case editing of
                        Some d \<Rightarrow> update_by_id online s deals (row_id d) (write_deal_data data p) rows
                      | None \<Rightarrow> insert_row online s deals (new_deal_row new_id server_now data p) rows) of
                  Inl e \<Rightarrow> Inl (Storage e)
                | Inr rows' \<Rightarrow> Inr rows'))"

definition resetForm :: "deals_screen \<Rightarrow> deals_screen" where
  "resetForm scr =
     scr\<lparr>formData := \<lparr>form_title = [], form_value = [], form_stage = ''lead'',
                           form_probability = ''0'', form_expected_close_date = [],
                           form_company_id = [], form_contact_id = [], form_notes = []\<rparr>,
         editingDeal := None\<rparr>"

definition handleSubmit ::
  "bool \<Rightarrow> bool \<Rightarrow> session \<Rightarrow> timestamp \<Rightarrow> uuid \<Rightarrow> timestamp \<Rightarrow>
   database \<times> deals_screen \<Rightarrow> request list \<times> database \<times> deals_screen" where
  "handleSubmit write_online fetch_online s now new_id server_now st =
     (case st of (db, scr) \<Rightarrow>
        (let req = Request (if editingDeal scr = None then INSERT else UPDATE) deals
         in case save_deal write_online s new_id server_now (editingDeal scr)
                   (dealData now (formData scr)) (deals_rows db) of
              Inl e \<Rightarrow> ([req], db, scr)
            | Inr rows' \<Rightarrow>
                ([req, Request SELECT deals],
                 db\<lparr>deals_rows := rows'\<rparr>,
                 fetchDeals fetch_online s (db\<lparr>deals_rows := rows'\<rparr>)
                   (resetForm (scr\<lparr>deal_modal_open := False, editingDeal := None\<rparr>)))))"

section \<open>The Dashboard\<close>

record stats =
  totalContacts :: nat
  totalCompanies :: nat
  totalDeals :: nat
  totalDealValue :: js_number
  activeTasks :: nat
  overdueTasks :: nat
  recentActivities :: nat

text \<open>
  What the accumulator of the per-stage reduce holds under a key: a count, or, where the
  first read met a method inherited from \<^verbatim>\<open>Object.prototype\<close>, the text of that method
  followed by as many \<^verbatim>\<open>1\<close> as the key was met (\<open>Joined\<close>, with the name of the method
  and the number of \<^verbatim>\<open>1\<close>).
\<close>

datatype stage_tally = Count nat | Joined string nat

record dashboard =
  dashboard_stats :: stats
  dealsByStage :: "string \<rightharpoonup> stage_tally"
  dashboard_loading :: bool

text \<open>\<^verbatim>\<open>deal.value\<close> as the client holds it: the double nearest to the stored decimal.
  In \<^verbatim>\<open>sum + deal.value\<close> a null value adds as zero.\<close>

definition deal_value_number :: "deal \<Rightarrow> js_number" where
  "deal_value_number d = (case value d of None \<Rightarrow> Num 0 | Some v \<Rightarrow> rnd v)"

definition totalValue :: "deal list \<Rightarrow> js_number" where
  "totalValue ds = foldl (\<lambda>sum d. js_add sum (deal_value_number d)) (Num 0) ds"

definition is_active :: "task \<Rightarrow> bool" where
  "is_active t = (status t = pending \<or> status t = in_progress)"

definition count_activeTasks :: "task list \<Rightarrow> nat" where
  "count_activeTasks ts = length (filter is_active ts)"

text \<open>\<open>now\<close> is the \<^verbatim>\<open>new Date()\<close> of the filter, taken as one instant for the whole
  list.\<close>

definition count_overdueTasks :: "timestamp \<Rightarrow> task list \<Rightarrow> nat" where
  "count_overdueTasks now ts =
     length (filter (\<lambda>t. is_active t \<and> (case due_date t of None \<Rightarrow> False | Some d \<Rightarrow> d < now)) ts)"

text \<open>
  \<^verbatim>\<open>acc[deal.stage] = (acc[deal.stage] || 0) + 1\<close> on an accumulator that starts as
  \<^verbatim>\<open>{}\<close>. The map holds the own properties of the accumulator; a read of a key it does
  not own goes on to \<^verbatim>\<open>Object.prototype\<close>. Under the name of one of its methods the read
  yields a function, which is truthy, and \<^verbatim>\<open>+ 1\<close> joins its text with \<^verbatim>\<open>1\<close>; the
  assignment then creates an own property with that string, and every further \<^verbatim>\<open>+ 1\<close>
  joins one more \<^verbatim>\<open>1\<close>. Under \<^verbatim>\<open>__proto__\<close> the read yields the prototype object and
  the assignment of the joined string goes to the \<^verbatim>\<open>__proto__\<close> setter, which ignores
  anything but an object or null: the accumulator stays as it is.
\<close>

definition object_prototype_methods :: "string list" where
  "object_prototype_methods =
     [''constructor'', ''hasOwnProperty'', ''isPrototypeOf'', ''propertyIsEnumerable'',
      ''toLocaleString'', ''toString'', ''valueOf'', ''__defineGetter__'',
      ''__defineSetter__'', ''__lookupGetter__'', ''__lookupSetter__'']"

definition stage_step :: "(string \<rightharpoonup> stage_tally) \<Rightarrow> deal \<Rightarrow> (string \<rightharpoonup> stage_tally)" where
  "stage_step acc d =
     (if stage d = ''__proto__'' then acc
      else case acc (stage d) of
             Some (Count n) \<Rightarrow> acc(stage d \<mapsto> Count (n + 1))
           | Some (Joined k n) \<Rightarrow> acc(stage d \<mapsto> Joined k (n + 1))
           | None \<Rightarrow>
               if stage d \<in> set object_prototype_methods
               then acc(stage d \<mapsto> Joined (stage d) 1)
               else acc(stage d \<mapsto> Count 1))"

definition stageCount :: "deal list \<Rightarrow> (string \<rightharpoonup> stage_tally)" where
  "stageCount ds = foldl stage_step Map.empty ds"

text \<open>The gateway returns an error value instead of throwing, so a query that failed
  reads as \<^verbatim>\<open>data || []\<close> and \<^verbatim>\<open>count || 0\<close>.\<close>

definition derive_dashboard ::
  "timestamp \<Rightarrow> nat option \<Rightarrow> nat option \<Rightarrow> deal list option \<Rightarrow> task list option \<Rightarrow>
   nat option \<Rightarrow> dashboard" where
  "derive_dashboard now contactsCount companiesCount dealsData tasksData activitiesCount =
     (let ds = (case dealsData of None \<Rightarrow> [] | Some x \<Rightarrow> x);
          ts = (case tasksData of None \<Rightarrow> [] | Some x \<Rightarrow> x)
      in \<lparr>dashboard_stats =
            \<lparr>totalContacts = (case contactsCount of None \<Rightarrow> 0 | Some n \<Rightarrow> n),
             totalCompanies = (case companiesCount of None \<Rightarrow> 0 | Some n \<Rightarrow> n),
             totalDeals = length ds,
             totalDealValue = totalValue ds,
             activeTasks = count_activeTasks ts,
             overdueTasks = count_overdueTasks now ts,
             recentActivities = (case activitiesCount of None \<Rightarrow> 0 | Some n \<Rightarrow> n)\<rparr>,
          dealsByStage = stageCount ds,
          dashboard_loading = False\<rparr>)"

definition query_count :: "bool \<Rightarrow> session \<Rightarrow> table_name \<Rightarrow> ('a owned_scheme) list \<Rightarrow> nat option" where
  "query_count online s t rows = (if online then Some (length (select_rows s t rows)) else None)"

definition query_rows ::
  "bool \<Rightarrow> session \<Rightarrow> table_name \<Rightarrow> ('a owned_scheme) list \<Rightarrow> ('a owned_scheme) list option" where
  "query_rows online s t rows = (if online then Some (select_rows s t rows) else None)"

definition fetchDashboardData ::
  "bool \<times> bool \<times> bool \<times> bool \<times> bool \<Rightarrow> session \<Rightarrow> timestamp \<Rightarrow> database \<Rightarrow> dashboard" where
  "fetchDashboardData net s now db =
     (case net of (n1, n2, n3, n4, n5) \<Rightarrow>
        derive_dashboard now
          (query_count n1 s contacts (contacts_rows db))
          (query_count n2 s companies (companies_rows db))
          (query_rows n3 s deals (deals_rows db))
          (query_rows n4 s tasks (tasks_rows db))
          (query_count n5 s activities (activities_rows db)))"

text \<open>The three ratios of the Quick Stats card. A count is a whole number far below
  \<open>2 ^ 53\<close>, so it is a double as it stands and \<^verbatim>\<open>activeTasks + overdueTasks\<close> is
  exact.\<close>

definition count_number :: "nat \<Rightarrow> js_number" where
  "count_number n = Num (of_nat n)"

definition averageDealValue :: "stats \<Rightarrow> js_number" where
  "averageDealValue st =
     (if totalDeals st > 0
      then Math_round (js_div (totalDealValue st) (count_number (totalDeals st)))
      else Num 0)"

definition contactsPerCompany :: "stats \<Rightarrow> js_number" where
  "contactsPerCompany st =
     (if totalCompanies st > 0
      then toFixed1 (js_div (count_number (totalContacts st)) (count_number (totalCompanies st)))
      else Num 0)"

definition taskCompletionRate :: "stats \<Rightarrow> js_number" where
  "taskCompletionRate st =
     (if activeTasks st + overdueTasks st > 0
      then Math_round
             (js_mul (js_div (count_number (activeTasks st))
                             (count_number (activeTasks st + overdueTasks st)))
                     (Num 100))
      else Num 0)"

section \<open>The Activities screen\<close>

record activity_form =
  form_type :: activity_type
  form_subject :: string
  form_description :: string
  form_activity_date :: timestamp

record activities_screen =
  activities_list :: "activity list"
  activities_loading :: bool
  activity_modal_open :: bool
  activity_form :: activity_form

text \<open>What one handler run gets from outside: whether the insert and the fetch reach the
  store, the clock of the browser and of the store, and the \<^verbatim>\<open>gen_random_uuid()\<close> of an
  insert.\<close>

record env =
  insert_online :: bool
  fetch_online :: bool
  client_now :: timestamp
  server_now :: timestamp
  new_id :: uuid

text \<open>\<^verbatim>\<open>new Date().toISOString().slice(0, 16)\<close>: the instant cut to the minute.\<close>

definition blank_activity_form :: "timestamp \<Rightarrow> activity_form" where
  "blank_activity_form now =
     \<lparr>form_type = Note, form_subject = [], form_description = [],
      form_activity_date = now - now mod 60000\<rparr>"

definition initial_activities_screen :: "timestamp \<Rightarrow> activities_screen" where
  "initial_activities_screen now =
     \<lparr>activities_list = [], activities_loading = True, activity_modal_open = False,
      activity_form = blank_activity_form now\<rparr>"

definition fetchActivities :: "bool \<Rightarrow> session \<Rightarrow> database \<Rightarrow> activities_screen \<Rightarrow> activities_screen" where
  "fetchActivities online s db scr =
     (if online
      then scr\<lparr>activities_list :=
                 sort_key (\<lambda>a. - activity_date a) (select_rows s activities (activities_rows db)),
               activities_loading := False\<rparr>
      else scr\<lparr>activities_loading := False\<rparr>)"

text \<open>The row an insert of the form proposes: the payload is the form alone, so the owner
  and the three references are null.\<close>

definition new_activity_row :: "env \<Rightarrow> activity_form \<Rightarrow> activity" where
  "new_activity_row e fd =
     \<lparr>row_id = new_id e, user_id = None, created_at = server_now e, company_id = None,
      type = form_type fd, subject = form_subject fd,
      activity_description = Some (form_description fd),
      activity_date = form_activity_date fd, contact_id = None, deal_id = None\<rparr>"

definition handleSubmit_activity ::
  "env \<Rightarrow> session \<Rightarrow> database \<times> activities_screen \<Rightarrow>
   request list \<times> database \<times> activities_screen" where
  "handleSubmit_activity e s st =
     (case st of (db, scr) \<Rightarrow>
        (case insert_row (insert_online e) s activities
                (new_activity_row e (activity_form scr)) (activities_rows db) of
           Inl err \<Rightarrow> ([Request INSERT activities], db, scr)
         | Inr rows' \<Rightarrow>
             ([Request INSERT activities, Request SELECT activities],
              db\<lparr>activities_rows := rows'\<rparr>,
              fetchActivities (fetch_online e) s (db\<lparr>activities_rows := rows'\<rparr>)
                (scr\<lparr>activity_modal_open := False,
                     activity_form := blank_activity_form (client_now e)\<rparr>))))"

text \<open>
  Everything a user can do on the screen. The form exists only while the modal is open,
  the buttons only once the first fetch has ended, and the browser submits the form only
  with the required subject filled in.
\<close>

datatype activities_event =
    Mount
  | OpenModal
  | ChangeType activity_type
  | ChangeSubject string
  | ChangeDescription string
  | ChangeActivityDate timestamp
  | Cancel
  | Submit

definition change_form :: "(activity_form \<Rightarrow> activity_form) \<Rightarrow> activities_screen \<Rightarrow> activities_screen" where
  "change_form f scr =
     (if activity_modal_open scr \<and> \<not> activities_loading scr
      then scr\<lparr>activity_form := f (activity_form scr)\<rparr> else scr)"

fun activities_step ::
  "session \<Rightarrow> env \<Rightarrow> activities_event \<Rightarrow> database \<times> activities_screen \<Rightarrow>
   request list \<times> database \<times> activities_screen" where
  "activities_step s e Mount (db, scr) =
     ([Request SELECT activities], db, fetchActivities (fetch_online e) s db scr)"
| "activities_step s e OpenModal (db, scr) =
     ([], db, if activities_loading scr then scr else scr\<lparr>activity_modal_open := True\<rparr>)"
| "activities_step s e (ChangeType x) (db, scr) =
     ([], db, change_form (\<lambda>fd. fd\<lparr>form_type := x\<rparr>) scr)"
| "activities_step s e (ChangeSubject x) (db, scr) =
     ([], db, change_form (\<lambda>fd. fd\<lparr>form_subject := x\<rparr>) scr)"
| "activities_step s e (ChangeDescription x) (db, scr) =
     ([], db, change_form (\<lambda>fd. fd\<lparr>form_description := x\<rparr>) scr)"
| "activities_step s e (ChangeActivityDate x) (db, scr) =
     ([], db, change_form (\<lambda>fd. fd\<lparr>form_activity_date := x\<rparr>) scr)"
| "activities_step s e Cancel (db, scr) =
     ([], db,
      if activity_modal_open scr \<and> \<not> activities_loading scr
      then scr\<lparr>activity_modal_open := False, activity_form := blank_activity_form (client_now e)\<rparr>
      else scr)"
| "activities_step s e Submit (db, scr) =
     (if activity_modal_open scr \<and> \<not> activities_loading scr \<and> form_subject (activity_form scr) \<noteq> []
      then handleSubmit_activity e s (db, scr)
      else ([], db, scr))"

fun run_activities ::
  "session \<Rightarrow> (env \<times> activities_event) list \<Rightarrow> database \<times> activities_screen \<Rightarrow>
   request list \<times> database \<times> activities_screen" where
  "run_activities s [] st = ([], st)"
| "run_activities s (x # xs) st =
     (case activities_step s (fst x) (snd x) st of
        (reqs, st') \<Rightarrow>
          (case run_activities s xs st' of (reqs', st'') \<Rightarrow> (reqs @ reqs', st'')))"

section \<open>Example rows\<close>


definition acme :: company where
  "acme = \<lparr>row_id = ''c1'', user_id = Some ''alice'', created_at = 0,
            name = ''Acme'', industry = None, website = None, company_phone = None,
            company_email = None, address = None, company_notes = None,
            company_updated_at = 0\<rparr>"

definition jane_doe :: contact where
  "jane_doe = \<lparr>row_id = ''p1'', user_id = Some ''alice'', created_at = 0,
                company_id = Some ''c1'', first_name = ''Jane'', last_name = ''Doe'',
                email = None, phone = None, title = None, contact_notes = None,
                contact_updated_at = 0\<rparr>"

definition lead_deal :: deal where
  "lead_deal = \<lparr>row_id = ''d1'', user_id = Some ''alice'', created_at = 0,
                 company_id = Some ''c1'', deal_title = ''Licence'', value = Some 1000,
                 stage = ''lead'', probability = Some 10, expected_close_date = None,
                 deal_contact_id = Some ''p1'', deal_notes = None, deal_updated_at = 0\<rparr>"

definition qualified_deal :: deal where
  "qualified_deal = \<lparr>row_id = ''d2'', user_id = Some ''alice'', created_at = 1,
                      company_id = None, deal_title = ''Support'', value = Some 2000,
                      stage = ''qualified'', probability = Some 40,
                      expected_close_date = None, deal_contact_id = None,
                      deal_notes = None, deal_updated_at = 1\<rparr>"

definition pending_task :: task where
  "pending_task = \<lparr>row_id = ''t1'', user_id = Some ''alice'', created_at = 0,
                    company_id = Some ''c1'', task_title = ''Call back'', description = None,
                    due_date = Some 1000, priority = medium, status = pending,
                    task_contact_id = None, task_deal_id = None, updated_at = 0\<rparr>"

definition completed_task :: task where
  "completed_task = pending_task\<lparr>row_id := ''t2'', status := completed\<rparr>"

definition logged_call :: activity where
  "logged_call = \<lparr>row_id = ''a1'', user_id = Some ''alice'', created_at = 0,
                   company_id = Some ''c1'', type = Call, subject = ''Intro call'',
                   activity_description = None, activity_date = 500, contact_id = None,
                   deal_id = None\<rparr>"

definition example_db :: database where
  "example_db = \<lparr>companies_rows = [acme], contacts_rows = [jane_doe],
                  deals_rows = [lead_deal, qualified_deal], tasks_rows = [pending_task],
                  activities_rows = [logged_call]\<rparr>"

definition example_tasks_screen :: tasks_screen where
  "example_tasks_screen = \<lparr>tasks_list = [pending_task], tasks_loading = False\<rparr>"

definition example_deals_screen :: deals_screen where
  "example_deals_screen =
     \<lparr>deals_list = [], deals_loading = False, deal_modal_open = False, editingDeal = None,
      formData = \<lparr>form_title = [], form_value = [], form_stage = ''lead'',
                   form_probability = ''0'', form_expected_close_date = [],
                   form_company_id = [], form_contact_id = [], form_notes = []\<rparr>\<rparr>"

definition example_env :: env where
  "example_env = \<lparr>insert_online = True, fetch_online = True, client_now = 120500,
                   server_now = 120600, new_id = ''a2''\<rparr>"

definition completed_once :: "request list \<times> database \<times> tasks_screen" where
  "completed_once =
     updateTaskStatus True True (Authenticated ''alice'') 5000 ''t1'' completed
       (example_db, example_tasks_screen)"

definition completed_twice :: "request list \<times> database \<times> tasks_screen" where
  "completed_twice =
     updateTaskStatus True True (Authenticated ''alice'') 6000 ''t1'' completed
       (snd completed_once)"

definition proposal_once :: "request list \<times> database \<times> deals_screen" where
  "proposal_once =
     updateDealStage True True (Authenticated ''alice'') 5000 ''d1'' ''proposal''
       (example_db, example_deals_screen)"

definition proposal_twice :: "request list \<times> database \<times> deals_screen" where
  "proposal_twice =
     updateDealStage True True (Authenticated ''alice'') 6000 ''d1'' ''proposal''
       (snd proposal_once)"

definition edit_1000e_screen :: deals_screen where
  "edit_1000e_screen =
     \<lparr>deals_list = [], deals_loading = False, deal_modal_open = True,
      editingDeal = Some lead_deal,
      formData = \<lparr>form_title = ''Licence'', form_value = ''1000'', form_stage = ''lead'',
                   form_probability = ''1000e-1'', form_expected_close_date = [],
                   form_company_id = ''c1'', form_contact_id = ''p1'', form_notes = []\<rparr>\<rparr>"

definition tenth_deal :: deal where
  "tenth_deal = lead_deal\<lparr>row_id := ''d3'', value := Some (1 / 10)\<rparr>"

definition fifth_deal :: deal where
  "fifth_deal = lead_deal\<lparr>row_id := ''d4'', value := Some (1 / 5)\<rparr>"

definition constructor_deal :: deal where
  "constructor_deal = lead_deal\<lparr>row_id := ''d5'', stage := ''constructor''\<rparr>"

definition proto_deal :: deal where
  "proto_deal = lead_deal\<lparr>row_id := ''d6'', stage := ''__proto__''\<rparr>"

text \<open>The amount a deal adds to the total: its value, or nothing when the value is null.\<close>

definition deal_amount :: "deal \<Rightarrow> rat" where
  "deal_amount d = (case value d of None \<Rightarrow> 0 | Some v \<Rightarrow> v)"

text \<open>Twenty-three pending tasks, of which the first seventeen were due at instant 1000
  and the other six have no due date.\<close>

definition twenty_three_tasks :: "task list" where
  "twenty_three_tasks =
     map (\<lambda>k. pending_task\<lparr>row_id := replicate (Suc k) CHR ''t'',
                           due_date := (if k < 17 then Some 1000 else None)\<rparr>) [0..<23]"

section \<open>Rounding to a double\<close>

lemma pow2_powi: "pow2 e = 2 powi e"
  by (simp add: pow2_def power_int_def field_simps)

lemma pow2_pos: "0 < pow2 e"
  by (simp add: pow2_powi)

lemma pow2_add: "pow2 (a + b) = pow2 a * pow2 b"
  by (simp add: pow2_powi power_int_add)

lemma pow2_mono: "a \<le> b \<Longrightarrow> pow2 a \<le> pow2 b"
  by (simp add: pow2_powi power_int_increasing)

lemma pow2_strict_mono: "a < b \<Longrightarrow> pow2 a < pow2 b"
  by (simp add: pow2_powi power_int_strict_increasing)

lemma pow2_nat: "pow2 (int k) = 2 ^ k"
  by (simp add: pow2_def)

lemma pow2_neg_nat: "pow2 (- int k) = 1 / 2 ^ k"
  by (simp add: pow2_powi power_int_minus divide_inverse)

lemma ilog2_bounds:
  assumes "0 < q"
  shows "pow2 (ilog2 q) \<le> q \<and> q < pow2 (ilog2 q + 1)"
proof (cases "1 \<le> q")
  case True
  define n where "n = nat \<lfloor>q\<rfloor>"
  define k where "k = floorlog 2 n"
  have n1: "1 \<le> n" using True by (simp add: n_def le_nat_iff)
  have fq: "0 \<le> \<lfloor>q\<rfloor>" using True by simp
  have "of_int \<lfloor>q\<rfloor> \<le> q" "q < of_int \<lfloor>q\<rfloor> + 1" by linarith+
  moreover have "(of_nat n :: rat) = of_int \<lfloor>q\<rfloor>" using fq by (simp add: n_def)
  ultimately have nq: "of_nat n \<le> q" "q < of_nat n + 1" by simp_all
  have b: "2 ^ (k - 1) \<le> n" "n < 2 ^ k"
    using floorlog_bounds [of n 2] n1 by (simp_all add: k_def)
  have k1: "1 \<le> k" using n1 by (simp add: k_def floorlog_def)
  have e: "ilog2 q = int (k - 1)"
    using True k1 by (simp add: ilog2_def n_def k_def)
  have "(2 :: rat) ^ (k - 1) \<le> of_nat n"
    using b(1) by (metis of_nat_le_iff of_nat_numeral of_nat_power)
  from this nq(1) have "(2 :: rat) ^ (k - 1) \<le> q" by (rule order_trans)
  then have lo: "pow2 (ilog2 q) \<le> q"
    by (simp add: e pow2_nat)
  have "n + 1 \<le> 2 ^ k" using b(2) by simp
  then have up: "of_nat (n + 1) \<le> (2 :: rat) ^ k"
    by (metis of_nat_le_iff of_nat_numeral of_nat_power)
  have "q < of_nat (n + 1)" using nq(2) by simp
  from this up have "q < 2 ^ k" by (rule less_le_trans)
  moreover have "ilog2 q + 1 = int k" using e k1 by simp
  ultimately have "q < pow2 (ilog2 q + 1)" by (simp add: pow2_nat)
  with lo show ?thesis by simp
next
  case False
  then have q1: "q < 1" by simp
  define m where "m = \<lceil>1 / q\<rceil>"
  define n where "n = nat (m - 1)"
  define k where "k = floorlog 2 n"
  have inv: "1 < 1 / q" using assms q1 by (simp add: field_simps)
  have m2: "2 \<le> m" using inv by (simp add: m_def le_ceiling_iff)
  have n1: "1 \<le> n" using m2 by (simp add: n_def)
  have mq: "1 / q \<le> of_int m" "of_int m - 1 < 1 / q"
    by (simp_all add: m_def ceiling_correct)
  have nm: "of_nat n = (of_int m - 1 :: rat)" using m2 by (simp add: n_def)
  have b: "2 ^ (k - 1) \<le> n" "n < 2 ^ k"
    using floorlog_bounds [of n 2] n1 by (simp_all add: k_def)
  have k1: "1 \<le> k" using n1 by (simp add: k_def floorlog_def)
  have e: "ilog2 q = - int k"
    using False by (simp add: ilog2_def n_def k_def m_def)
  have "n + 1 \<le> 2 ^ k" using b(2) by simp
  then have up: "of_nat (n + 1) \<le> (2 :: rat) ^ k"
    by (metis of_nat_le_iff of_nat_numeral of_nat_power)
  have "1 / q \<le> of_nat (n + 1)" using mq(1) nm by simp
  from this up have "1 / q \<le> 2 ^ k" by (rule order_trans)
  then have "1 / 2 ^ k \<le> q" using assms by (simp add: field_simps)
  then have lo: "pow2 (ilog2 q) \<le> q" by (simp add: e pow2_neg_nat)
  have dn: "(2 :: rat) ^ (k - 1) \<le> of_nat n"
    using b(1) by (metis of_nat_le_iff of_nat_numeral of_nat_power)
  have "of_nat n < 1 / q" using mq(2) nm by simp
  with dn have "2 ^ (k - 1) < 1 / q" by (rule le_less_trans)
  then have "q < 1 / 2 ^ (k - 1)" using assms by (simp add: field_simps)
  moreover have "ilog2 q + 1 = - int (k - 1)" using e k1 by simp
  ultimately have "q < pow2 (ilog2 q + 1)" by (simp add: pow2_neg_nat)
  with lo show ?thesis by simp
qed

lemma ilog2_eqI:
  assumes "pow2 e \<le> q" "q < pow2 (e + 1)"
  shows "ilog2 q = e"
proof -
  have q: "0 < q" using assms(1) pow2_pos [of e] by simp
  note b = ilog2_bounds [OF q]
  have "\<not> ilog2 q < e"
  proof
    assume "ilog2 q < e"
    then have "pow2 (ilog2 q + 1) \<le> pow2 e" by (intro pow2_mono) simp
    with b assms(1) show False by simp
  qed
  moreover have "\<not> e < ilog2 q"
  proof
    assume "e < ilog2 q"
    then have "pow2 (e + 1) \<le> pow2 (ilog2 q)" by (intro pow2_mono) simp
    with b assms(2) show False by simp
  qed
  ultimately show ?thesis by simp
qed

lemma round_half_even_of_int: "round_half_even (of_int n) = n"
  by (simp add: round_half_even_def)

lemma round_half_even_error: "\<bar>of_int (round_half_even x) - x\<bar> \<le> 1 / 2"
proof -
  have "of_int \<lfloor>x\<rfloor> \<le> x" "x < of_int \<lfloor>x\<rfloor> + 1" by linarith+
  then show ?thesis
    by (auto simp: round_half_even_def Let_def)
qed

lemma fl_pos_eq:
  assumes "pow2 e \<le> q" "q < pow2 (e + 1)"
  shows "fl q = of_int (round_half_even (q / pow2 (max e (- 1022) - 52)))
                  * pow2 (max e (- 1022) - 52)"
proof -
  have q: "0 < q" using assms(1) pow2_pos [of e] by simp
  have "ilog2 q = e" using assms by (rule ilog2_eqI)
  with q show ?thesis by (simp add: fl_def Let_def)
qed

lemma fl_minus: "fl (- q) = - fl q"
  by (simp add: fl_def Let_def sgn_minus)

lemma fl_error:
  assumes "pow2 e \<le> q" "q < pow2 (e + 1)" "- 1022 \<le> e"
  shows "\<bar>fl q - q\<bar> \<le> pow2 (e - 53)"
proof -
  define u where "u = pow2 (e - 52)"
  have u: "0 < u" by (simp add: u_def pow2_pos)
  have u2: "u = 2 * pow2 (e - 53)"
    using pow2_add [of 1 "e - 53"] by (simp add: u_def pow2_def)
  have f: "fl q = of_int (round_half_even (q / u)) * u"
    using fl_pos_eq [OF assms(1,2)] assms(3) by (simp add: u_def max_def)
  have "fl q - q = (of_int (round_half_even (q / u)) - q / u) * u"
    using u by (simp add: f field_simps)
  then have "\<bar>fl q - q\<bar> = \<bar>of_int (round_half_even (q / u)) - q / u\<bar> * u"
    using u by (simp add: abs_mult)
  also have "\<dots> \<le> (1 / 2) * u"
    using round_half_even_error [of "q / u"] u by (intro mult_right_mono) simp_all
  finally show ?thesis by (simp add: u2)
qed

lemma fl_exact:
  assumes "pow2 e \<le> q" "q < pow2 (e + 1)"
    and "q / pow2 (max e (- 1022) - 52) = of_int n"
  shows "fl q = q"
proof -
  have "fl q = of_int n * pow2 (max e (- 1022) - 52)"
    using fl_pos_eq [OF assms(1,2)] assms(3) by (simp add: round_half_even_of_int)
  also have "\<dots> = q"
    using assms(3) pow2_pos [of "max e (- 1022) - 52"] by (simp add: field_simps)
  finally show ?thesis .
qed

lemma fl_of_nat:
  assumes "n < 2 ^ 53"
  shows "fl (of_nat n) = of_nat n"
proof (cases "n = 0")
  case True
  then show ?thesis by (simp add: fl_def)
next
  case False
  define q :: rat where "q = of_nat n"
  have q1: "1 \<le> q" using False by (simp add: q_def)
  then have q0: "0 < q" by simp
  have qu: "q < 2 ^ 53"
    using assms unfolding q_def by (metis of_nat_less_iff of_nat_numeral of_nat_power)
  define e where "e = ilog2 q"
  note b = ilog2_bounds [OF q0, folded e_def]
  have e0: "0 \<le> e"
  proof (rule ccontr)
    assume "\<not> 0 \<le> e"
    then have "pow2 (e + 1) \<le> pow2 0" by (intro pow2_mono) simp
    with b q1 show False by (simp add: pow2_def)
  qed
  have e52: "e \<le> 52"
  proof (rule ccontr)
    assume "\<not> e \<le> 52"
    then have "pow2 53 \<le> pow2 e" by (intro pow2_mono) simp
    with b qu show False by (simp add: pow2_def)
  qed
  define k where "k = nat (52 - e)"
  have ek: "e - 52 = - int k" using e52 by (simp add: k_def)
  have "q / pow2 (max e (- 1022) - 52) = q * 2 ^ k"
    using e0 by (simp add: max_def ek pow2_neg_nat)
  also have "\<dots> = of_int (int (n * 2 ^ k))" by (simp add: q_def)
  finally have i: "q / pow2 (max e (- 1022) - 52) = of_int (int (n * 2 ^ k))" .
  from b have "pow2 e \<le> q" "q < pow2 (e + 1)" by simp_all
  from this i have "fl q = q" by (rule fl_exact)
  then show ?thesis by (simp add: q_def)
qed

lemma fl_of_int:
  assumes "\<bar>n\<bar> < 2 ^ 53"
  shows "fl (of_int n) = of_int n"
proof (cases "0 \<le> n")
  case True
  then have "nat n < 2 ^ 53" using assms by (simp add: nat_less_iff)
  from fl_of_nat [OF this] True show ?thesis by simp
next
  case False
  then have "nat (- n) < 2 ^ 53" using assms by (simp add: nat_less_iff)
  from fl_of_nat [OF this] False have "fl (of_int (- n)) = of_int (- n)" by simp
  then show ?thesis using fl_minus [of "of_int n"] by simp
qed

lemma rnd_of_int:
  assumes "\<bar>n\<bar> < 2 ^ 53"
  shows "rnd (of_int n) = Num (of_int n)"
proof -
  have "(of_int \<bar>n\<bar> :: rat) < 2 ^ 53"
    using assms by (metis of_int_less_iff of_int_numeral of_int_power)
  then have "\<bar>of_int n :: rat\<bar> < 2 ^ 53" by simp
  moreover have "(2 :: rat) ^ 53 < 2 ^ 1024" by simp
  ultimately have "\<bar>of_int n :: rat\<bar> < 2 ^ 1024" by (rule less_trans)
  then have "\<not> 2 ^ 1024 \<le> (of_int n :: rat)" "\<not> (of_int n :: rat) \<le> - (2 ^ 1024)"
    by (simp_all add: abs_less_iff not_le)
  then show ?thesis
    using fl_of_int [OF assms] by (simp add: rnd_def Let_def)
qed

lemma rnd_numeral: "numeral w < (2 :: int) ^ 53 \<Longrightarrow> rnd (numeral w) = Num (numeral w)"
  using rnd_of_int [of "numeral w"] by simp

lemma rnd_0: "rnd 0 = Num 0"
  using rnd_of_int [of 0] by simp

lemma parseInt_Nil: "parseInt [] = NaN"
  by (simp add: parseInt_def strip_sign_def)

lemma parseFloat_Nil: "parseFloat [] = NaN"
  by (simp add: parseFloat_def strip_sign_def)

lemma rnd_eq_Num: "\<bar>fl q\<bar> < 2 ^ 1024 \<Longrightarrow> rnd q = Num (fl q)"
  by (auto simp: rnd_def Let_def abs_less_iff)

lemma floor_rat_numeral: "\<lfloor>numeral a / numeral b :: rat\<rfloor> = numeral a div numeral b"
  by (metis floor_divide_of_int_eq of_int_numeral)

text \<open>The error of one rounding, in the normal range and below it.\<close>

lemma fl_0: "fl 0 = 0"
  by (simp add: fl_def)

lemma fl_abs_error_pos:
  assumes "0 < q"
  shows "\<bar>fl q - q\<bar> \<le> q / 2 ^ 53 + 1 / 2 ^ 1075"
proof -
  define e where "e = ilog2 q"
  have b: "pow2 e \<le> q" "q < pow2 (e + 1)"
    using ilog2_bounds [OF assms] by (simp_all add: e_def)
  show ?thesis
  proof (cases "- 1022 \<le> e")
    case True
    have "\<bar>fl q - q\<bar> \<le> pow2 (e - 53)" using b True by (rule fl_error)
    also have "pow2 (e - 53) = pow2 e / 2 ^ 53"
      using pow2_add [of e "- 53"] by (simp add: pow2_def)
    also have "\<dots> \<le> q / 2 ^ 53" using b(1) by (simp add: divide_right_mono)
    also have "\<dots> \<le> q / 2 ^ 53 + 1 / 2 ^ 1075" by simp
    finally show ?thesis .
  next
    case False
    then have m: "max e (- 1022) - 52 = - 1074" by simp
    define w where "w = pow2 (- 1074)"
    have w: "0 < w" by (simp add: w_def pow2_pos)
    have w2: "w = 2 * (1 / 2 ^ 1075)" by (simp add: w_def pow2_def)
    have f: "fl q = of_int (round_half_even (q / w)) * w"
      using fl_pos_eq [OF b] by (simp only: m w_def)
    have "fl q - q = (of_int (round_half_even (q / w)) - q / w) * w"
      using w by (simp add: f field_simps)
    then have "\<bar>fl q - q\<bar> = \<bar>of_int (round_half_even (q / w)) - q / w\<bar> * w"
      using w by (simp add: abs_mult)
    also have "\<dots> \<le> 1 / 2 * w"
      using round_half_even_error [of "q / w"] w by (intro mult_right_mono) simp_all
    also have "\<dots> = 1 / 2 ^ 1075" by (simp add: w2)
    also have "\<dots> \<le> q / 2 ^ 53 + 1 / 2 ^ 1075" using assms by simp
    finally show ?thesis .
  qed
qed

lemma fl_abs_error: "\<bar>fl q - q\<bar> \<le> \<bar>q\<bar> / 2 ^ 53 + 1 / 2 ^ 1075"
proof (cases "q = 0")
  case True
  then show ?thesis by (simp add: fl_0)
next
  case False
  show ?thesis
  proof (cases "0 < q")
    case True
    then show ?thesis using fl_abs_error_pos [of q] by simp
  next
    case False
    with \<open>q \<noteq> 0\<close> have n: "0 < - q" by simp
    have "\<bar>fl q - q\<bar> = \<bar>fl (- q) - (- q)\<bar>" by (simp add: fl_minus abs_minus_commute)
    also have "\<dots> \<le> (- q) / 2 ^ 53 + 1 / 2 ^ 1075" using n by (rule fl_abs_error_pos)
    finally show ?thesis using n by simp
  qed
qed

lemma rnd_small:
  assumes "\<bar>q\<bar> < 2 ^ 1023"
  shows "rnd q = Num (fl q)"
proof -
  have "\<bar>fl q\<bar> \<le> \<bar>fl q - q\<bar> + \<bar>q\<bar>" by simp
  also have "\<dots> \<le> \<bar>q\<bar> / 2 ^ 53 + 1 / 2 ^ 1075 + \<bar>q\<bar>" using fl_abs_error [of q] by simp
  also have "\<dots> < 2 ^ 1024" using assms by simp
  finally show ?thesis by (rule rnd_eq_Num)
qed

text \<open>The doubles nearest to a tenth and to a fifth, and their sum.\<close>

lemma fl_tenth: "fl (1 / 10) = 3602879701896397 / 36028797018963968"
  using fl_pos_eq [of "- 4" "1 / 10"]
  by (simp add: pow2_def round_half_even_def Let_def floor_rat_numeral)

lemma fl_fifth: "fl (1 / 5) = 3602879701896397 / 18014398509481984"
  using fl_pos_eq [of "- 3" "1 / 5"]
  by (simp add: pow2_def round_half_even_def Let_def floor_rat_numeral)

lemma fl_double_tenth:
  "fl (3602879701896397 / 36028797018963968) = 3602879701896397 / 36028797018963968"
  using fl_pos_eq [of "- 4" "3602879701896397 / 36028797018963968"]
  by (simp add: pow2_def round_half_even_def Let_def floor_rat_numeral)

lemma fl_tenth_plus_fifth:
  "fl (10808639105689191 / 36028797018963968) = 1351079888211149 / 4503599627370496"
  using fl_pos_eq [of "- 2" "10808639105689191 / 36028797018963968"]
  by (simp add: pow2_def round_half_even_def Let_def floor_rat_numeral)

section \<open>Isolation of the rows of a user\<close>

lemma uid_is_user_id_auth: "uid_is_user_id (Authenticated u) r = (user_id r = Some u)"
  by (cases "user_id r") (auto simp: uid_is_user_id_def sql_eq_def)

lemma passes_using_auth:
  "c \<noteq> INSERT \<Longrightarrow> passes_using (Authenticated u) t c r = (user_id r = Some u)"
  by (cases t; cases c) (simp_all add: passes_using_def uid_is_user_id_auth)

lemma passes_check_auth:
  "c = INSERT \<or> c = UPDATE \<Longrightarrow> passes_check (Authenticated u) t c r = (user_id r = Some u)"
  by (cases t; cases c) (simp_all add: passes_check_def uid_is_user_id_auth)

lemma targeted_auth:
  "c = UPDATE \<or> c = DELETE \<Longrightarrow>
   targeted (Authenticated u) t c i r = (row_id r = i \<and> user_id r = Some u)"
  by (auto simp: targeted_def passes_using_auth)

lemma targeted_anon: "\<not> targeted Anon t c i r"
  by (simp add: targeted_def passes_using_def)

text \<open>Whether a row is targeted depends on its identifier and its owner only.\<close>

lemma targeted_cong:
  "row_id r' = row_id r \<Longrightarrow> user_id r' = user_id r \<Longrightarrow> c = UPDATE \<or> c = DELETE \<Longrightarrow>
   targeted s t c i r' = targeted s t c i r"
  by (cases s) (auto simp: targeted_anon targeted_auth)

lemma targeted_passes_check:
  "targeted s t UPDATE i r \<Longrightarrow> user_id r' = user_id r \<Longrightarrow> passes_check s t UPDATE r'"
  by (cases s) (auto simp: targeted_anon targeted_auth passes_check_auth)

lemma update_keeping_owner:
  assumes "\<And>r. user_id (patch r) = user_id r"
  shows "update_by_id online s t i patch rows =
           (if online then Inr (map (\<lambda>r. if targeted s t UPDATE i r then patch r else r) rows)
            else Inl NetworkError)"
  using assms by (auto simp: update_by_id_def list_ex_iff dest: targeted_passes_check)

lemma updateTaskStatus_eq:
  "updateTaskStatus uo fo s now i st (db, scr) =
     (if uo
      then ([Request UPDATE tasks, Request SELECT tasks],
            db\<lparr>tasks_rows := map (\<lambda>r. if targeted s tasks UPDATE i r
                                        then r\<lparr>status := st, updated_at := now\<rparr> else r) (tasks_rows db)\<rparr>,
            fetchTasks fo s
              (db\<lparr>tasks_rows := map (\<lambda>r. if targeted s tasks UPDATE i r
                                        then r\<lparr>status := st, updated_at := now\<rparr> else r) (tasks_rows db)\<rparr>) scr)
      else ([Request UPDATE tasks], db, scr))"
  by (simp add: updateTaskStatus_def update_keeping_owner)

lemma updateDealStage_eq:
  "updateDealStage uo fo s now i st (db, scr) =
     (if uo
      then ([Request UPDATE deals, Request SELECT deals],
            db\<lparr>deals_rows := map (\<lambda>r. if targeted s deals UPDATE i r
                                        then r\<lparr>stage := st, deal_updated_at := now\<rparr> else r) (deals_rows db)\<rparr>,
            fetchDeals fo s
              (db\<lparr>deals_rows := map (\<lambda>r. if targeted s deals UPDATE i r
                                        then r\<lparr>stage := st, deal_updated_at := now\<rparr> else r) (deals_rows db)\<rparr>) scr)
      else ([Request UPDATE deals], db, scr))"
  by (simp add: updateDealStage_def update_keeping_owner)













lemma select_rows_auth:
  "select_rows (Authenticated u) t rows = filter (\<lambda>r. user_id r = Some u) rows"
  unfolding select_rows_def by (rule filter_cong) (simp_all add: passes_using_auth)


lemma delete_by_id_auth:
  "delete_by_id True (Authenticated u) t i rows =
     Inr (filter (\<lambda>r. \<not> (row_id r = i \<and> user_id r = Some u)) rows)"
  by (simp add: delete_by_id_def targeted_auth)




text \<open>
  C2. The claim has a completed task never flagged overdue. The Tasks screen flags one:
  its badge looks at the due date alone, so a completed task whose due date has passed is
  shown as overdue, while the overdue count of the Dashboard, which tests the status
  first, does not count the same task.
\<close>

theorem completed_task_flagged_overdue:
  "status completed_task = completed \<and> due_date completed_task = Some 1000
   \<and> overdue_badge 2000 completed_task
   \<and> count_overdueTasks 2000 [completed_task] = 0"
  by (simp add: completed_task_def pending_task_def overdue_badge_def isOverdue_def
      count_overdueTasks_def is_active_def)




section \<open>Quick transitions, deletion and the activity log\<close>

lemma targeted_task_patch:
  "targeted s tasks UPDATE i (r\<lparr>status := x, updated_at := n\<rparr>) = targeted s tasks UPDATE i r"
  by (simp add: targeted_def passes_using_def uid_is_user_id_def)

lemma targeted_deal_patch:
  "targeted s deals UPDATE i (r\<lparr>stage := x, deal_updated_at := n\<rparr>) = targeted s deals UPDATE i r"
  by (simp add: targeted_def passes_using_def uid_is_user_id_def)

lemma updateTaskStatus_twice:
  assumes "updateTaskStatus True fo1 s now1 i st (db, scr) = (reqs1, db1, scr1)"
    and "updateTaskStatus uo2 fo2 s now2 i st (db1, scr1) = (reqs2, db2, scr2)"
  shows "length (tasks_rows db1) = length (tasks_rows db)
    \<and> length (tasks_rows db2) = length (tasks_rows db1)
    \<and> map row_id (tasks_rows db2) = map row_id (tasks_rows db1)
    \<and> map status (tasks_rows db2) = map status (tasks_rows db1)
    \<and> (\<forall>k < length (tasks_rows db1).
          tasks_rows db2 ! k = tasks_rows db1 ! k
        \<or> tasks_rows db2 ! k = (tasks_rows db1 ! k)\<lparr>updated_at := now2\<rparr>)
    \<and> companies_rows db2 = companies_rows db1 \<and> contacts_rows db2 = contacts_rows db1
    \<and> deals_rows db2 = deals_rows db1 \<and> activities_rows db2 = activities_rows db1"
proof -
  have db1: "db1 = db\<lparr>tasks_rows := map (\<lambda>r. if targeted s tasks UPDATE i r
                 then r\<lparr>status := st, updated_at := now1\<rparr> else r) (tasks_rows db)\<rparr>"
    using assms(1) by (simp add: updateTaskStatus_eq)
  show ?thesis
  proof (cases uo2)
    case False
    with assms(2) show ?thesis by (auto simp: updateTaskStatus_eq db1)
  next
    case True
    with assms(2) have db2: "db2 = db1\<lparr>tasks_rows := map (\<lambda>r. if targeted s tasks UPDATE i r
                 then r\<lparr>status := st, updated_at := now2\<rparr> else r) (tasks_rows db1)\<rparr>"
      by (simp add: updateTaskStatus_eq)
    show ?thesis
      by (simp add: db2 db1 targeted_task_patch o_def)
  qed
qed

lemma updateDealStage_twice:
  assumes "updateDealStage True fo1 s now1 j sg (db, scr) = (reqs1, db1, scr1)"
    and "updateDealStage uo2 fo2 s now2 j sg (db1, scr1) = (reqs2, db2, scr2)"
  shows "length (deals_rows db1) = length (deals_rows db)
    \<and> length (deals_rows db2) = length (deals_rows db1)
    \<and> map row_id (deals_rows db2) = map row_id (deals_rows db1)
    \<and> map stage (deals_rows db2) = map stage (deals_rows db1)
    \<and> (\<forall>k < length (deals_rows db1).
          deals_rows db2 ! k = deals_rows db1 ! k
        \<or> deals_rows db2 ! k = (deals_rows db1 ! k)\<lparr>deal_updated_at := now2\<rparr>)
    \<and> companies_rows db2 = companies_rows db1 \<and> contacts_rows db2 = contacts_rows db1
    \<and> tasks_rows db2 = tasks_rows db1 \<and> activities_rows db2 = activities_rows db1"
proof -
  have db1: "db1 = db\<lparr>deals_rows := map (\<lambda>r. if targeted s deals UPDATE j r
                 then r\<lparr>stage := sg, deal_updated_at := now1\<rparr> else r) (deals_rows db)\<rparr>"
    using assms(1) by (simp add: updateDealStage_eq)
  show ?thesis
  proof (cases uo2)
    case False
    with assms(2) show ?thesis by (auto simp: updateDealStage_eq db1)
  next
    case True
    with assms(2) have db2: "db2 = db1\<lparr>deals_rows := map (\<lambda>r. if targeted s deals UPDATE j r
                 then r\<lparr>stage := sg, deal_updated_at := now2\<rparr> else r) (deals_rows db1)\<rparr>"
      by (simp add: updateDealStage_eq)
    show ?thesis
      by (simp add: db2 db1 targeted_deal_patch o_def)
  qed
qed


text \<open>
  C7. When a quick transition has been applied and the same transition is issued again,
  the table has the same number of rows with the same identifiers, every row has the
  status (stage) it had after the first issuance, and a row differs from its state after
  the first issuance in \<^verbatim>\<open>updated_at\<close> at most; the other tables are untouched.
\<close>

theorem quick_transition_idempotent:
  "(updateTaskStatus True fo1 s now1 i st (db, scr) = (reqs1, db1, scr1)
    \<and> updateTaskStatus uo2 fo2 s now2 i st (db1, scr1) = (reqs2, db2, scr2) \<longrightarrow>
      length (tasks_rows db1) = length (tasks_rows db)
    \<and> length (tasks_rows db2) = length (tasks_rows db1)
    \<and> map row_id (tasks_rows db2) = map row_id (tasks_rows db1)
    \<and> map status (tasks_rows db2) = map status (tasks_rows db1)
    \<and> (\<forall>k < length (tasks_rows db1).
          tasks_rows db2 ! k = tasks_rows db1 ! k
        \<or> tasks_rows db2 ! k = (tasks_rows db1 ! k)\<lparr>updated_at := now2\<rparr>)
    \<and> companies_rows db2 = companies_rows db1 \<and> contacts_rows db2 = contacts_rows db1
    \<and> deals_rows db2 = deals_rows db1 \<and> activities_rows db2 = activities_rows db1)
 \<and> (updateDealStage True fo1 s now1 j sg (db, dscr) = (dreqs1, ddb1, dscr1)
    \<and> updateDealStage uo2 fo2 s now2 j sg (ddb1, dscr1) = (dreqs2, ddb2, dscr2) \<longrightarrow>
      length (deals_rows ddb1) = length (deals_rows db)
    \<and> length (deals_rows ddb2) = length (deals_rows ddb1)
    \<and> map row_id (deals_rows ddb2) = map row_id (deals_rows ddb1)
    \<and> map stage (deals_rows ddb2) = map stage (deals_rows ddb1)
    \<and> (\<forall>k < length (deals_rows ddb1).
          deals_rows ddb2 ! k = deals_rows ddb1 ! k
        \<or> deals_rows ddb2 ! k = (deals_rows ddb1 ! k)\<lparr>deal_updated_at := now2\<rparr>)
    \<and> companies_rows ddb2 = companies_rows ddb1 \<and> contacts_rows ddb2 = contacts_rows ddb1
    \<and> tasks_rows ddb2 = tasks_rows ddb1 \<and> activities_rows ddb2 = activities_rows ddb1)"
  using updateTaskStatus_twice [of fo1 s now1 i st db scr reqs1 db1 scr1 uo2 fo2 now2 reqs2 db2 scr2]
        updateDealStage_twice [of fo1 s now1 j sg db dscr dreqs1 ddb1 dscr1 uo2 fo2 now2 dreqs2 ddb2 dscr2]
  by blast

theorem quick_transition_idempotent_witness:
  "map status (tasks_rows (fst (snd completed_once))) = [completed]
   \<and> map status (tasks_rows (fst (snd completed_twice))) = [completed]
   \<and> length (tasks_rows (fst (snd completed_twice))) = 1
   \<and> map stage (deals_rows (fst (snd proposal_once))) = [''proposal'', ''qualified'']
   \<and> map stage (deals_rows (fst (snd proposal_twice))) = [''proposal'', ''qualified'']
   \<and> length (deals_rows (fst (snd proposal_twice))) = 2"
  using quick_transition_idempotent [where ?fo1.0 = True and ?uo2.0 = True and ?fo2.0 = True
      and s = "Authenticated ''alice''" and ?now1.0 = 5000 and ?now2.0 = 6000
      and i = "''t1''" and st = completed and db = example_db and scr = example_tasks_screen
      and ?reqs1.0 = "fst completed_once" and ?db1.0 = "fst (snd completed_once)"
      and ?scr1.0 = "snd (snd completed_once)"
      and ?reqs2.0 = "fst completed_twice" and ?db2.0 = "fst (snd completed_twice)"
      and ?scr2.0 = "snd (snd completed_twice)"
      and j = "''d1''" and sg = "''proposal''" and dscr = example_deals_screen
      and ?dreqs1.0 = "fst proposal_once" and ?ddb1.0 = "fst (snd proposal_once)"
      and ?dscr1.0 = "snd (snd proposal_once)"
      and ?dreqs2.0 = "fst proposal_twice" and ?ddb2.0 = "fst (snd proposal_twice)"
      and ?dscr2.0 = "snd (snd proposal_twice)"]
  by (simp add: completed_once_def completed_twice_def proposal_once_def proposal_twice_def
      updateTaskStatus_eq updateDealStage_eq example_db_def pending_task_def lead_deal_def
      qualified_deal_def targeted_auth)

lemma on_delete_set_null_Nil: "on_delete_set_null [] rows = rows"
  unfolding on_delete_set_null_def by (induction rows) (auto split: option.splits)

lemma on_delete_set_null_one:
  "set gone = {i} \<Longrightarrow>
   on_delete_set_null gone rows
     = map (\<lambda>r. if company_id r = Some i then r\<lparr>company_id := None\<rparr> else r) rows"
  unfolding on_delete_set_null_def by (induction rows) (auto split: option.splits)

lemma delete_company_eq:
  assumes "c \<in> set (companies_rows db)" "row_id c = i" "user_id c = Some u"
  shows "delete_company True (Authenticated u) i db =
     Inr (db\<lparr>companies_rows := filter (\<lambda>r. \<not> (row_id r = i \<and> user_id r = Some u)) (companies_rows db),
              contacts_rows := map (\<lambda>r. if company_id r = Some i then r\<lparr>company_id := None\<rparr> else r) (contacts_rows db),
              deals_rows := map (\<lambda>r. if company_id r = Some i then r\<lparr>company_id := None\<rparr> else r) (deals_rows db),
              tasks_rows := map (\<lambda>r. if company_id r = Some i then r\<lparr>company_id := None\<rparr> else r) (tasks_rows db),
              activities_rows := map (\<lambda>r. if company_id r = Some i then r\<lparr>company_id := None\<rparr> else r) (activities_rows db)\<rparr>)"
proof -
  have "set (map row_id (filter (targeted (Authenticated u) companies DELETE i) (companies_rows db))) = {i}"
    using assms by (auto simp: targeted_auth)
  then show ?thesis
    by (simp add: delete_company_def delete_by_id_auth Let_def on_delete_set_null_one)
qed

text \<open>
  C8. Deleting a company the caller owns sets \<^verbatim>\<open>company_id\<close> to null on every contact,
  deal, task and activity that referenced it and changes nothing else in those rows; all
  of these rows are still there, under the same identifiers, and none references the
  company any more.
\<close>

theorem delete_company_sets_null:
  "c \<in> set (companies_rows db) \<and> row_id c = i \<and> user_id c = Some u
   \<and> delete_company True (Authenticated u) i db = Inr db' \<longrightarrow>
     contacts_rows db' = map (\<lambda>r. if company_id r = Some i then r\<lparr>company_id := None\<rparr> else r) (contacts_rows db)
   \<and> deals_rows db' = map (\<lambda>r. if company_id r = Some i then r\<lparr>company_id := None\<rparr> else r) (deals_rows db)
   \<and> tasks_rows db' = map (\<lambda>r. if company_id r = Some i then r\<lparr>company_id := None\<rparr> else r) (tasks_rows db)
   \<and> activities_rows db' = map (\<lambda>r. if company_id r = Some i then r\<lparr>company_id := None\<rparr> else r) (activities_rows db)
   \<and> map row_id (contacts_rows db') = map row_id (contacts_rows db)
   \<and> map row_id (deals_rows db') = map row_id (deals_rows db)
   \<and> map row_id (tasks_rows db') = map row_id (tasks_rows db)
   \<and> map row_id (activities_rows db') = map row_id (activities_rows db)
   \<and> (\<forall>r \<in> set (contacts_rows db'). company_id r \<noteq> Some i)
   \<and> (\<forall>r \<in> set (deals_rows db'). company_id r \<noteq> Some i)
   \<and> (\<forall>r \<in> set (tasks_rows db'). company_id r \<noteq> Some i)
   \<and> (\<forall>r \<in> set (activities_rows db'). company_id r \<noteq> Some i)
   \<and> companies_rows db' = filter (\<lambda>r. \<not> (row_id r = i \<and> user_id r = Some u)) (companies_rows db)"
proof (intro impI, elim conjE)
  assume a: "c \<in> set (companies_rows db)" "row_id c = i" "user_id c = Some u"
    and d: "delete_company True (Authenticated u) i db = Inr db'"
  have db': "db' = db\<lparr>companies_rows := filter (\<lambda>r. \<not> (row_id r = i \<and> user_id r = Some u)) (companies_rows db),
              contacts_rows := map (\<lambda>r. if company_id r = Some i then r\<lparr>company_id := None\<rparr> else r) (contacts_rows db),
              deals_rows := map (\<lambda>r. if company_id r = Some i then r\<lparr>company_id := None\<rparr> else r) (deals_rows db),
              tasks_rows := map (\<lambda>r. if company_id r = Some i then r\<lparr>company_id := None\<rparr> else r) (tasks_rows db),
              activities_rows := map (\<lambda>r. if company_id r = Some i then r\<lparr>company_id := None\<rparr> else r) (activities_rows db)\<rparr>"
    using d delete_company_eq [OF a] by simp
  show "contacts_rows db' = map (\<lambda>r. if company_id r = Some i then r\<lparr>company_id := None\<rparr> else r) (contacts_rows db)
   \<and> deals_rows db' = map (\<lambda>r. if company_id r = Some i then r\<lparr>company_id := None\<rparr> else r) (deals_rows db)
   \<and> tasks_rows db' = map (\<lambda>r. if company_id r = Some i then r\<lparr>company_id := None\<rparr> else r) (tasks_rows db)
   \<and> activities_rows db' = map (\<lambda>r. if company_id r = Some i then r\<lparr>company_id := None\<rparr> else r) (activities_rows db)
   \<and> map row_id (contacts_rows db') = map row_id (contacts_rows db)
   \<and> map row_id (deals_rows db') = map row_id (deals_rows db)
   \<and> map row_id (tasks_rows db') = map row_id (tasks_rows db)
   \<and> map row_id (activities_rows db') = map row_id (activities_rows db)
   \<and> (\<forall>r \<in> set (contacts_rows db'). company_id r \<noteq> Some i)
   \<and> (\<forall>r \<in> set (deals_rows db'). company_id r \<noteq> Some i)
   \<and> (\<forall>r \<in> set (tasks_rows db'). company_id r \<noteq> Some i)
   \<and> (\<forall>r \<in> set (activities_rows db'). company_id r \<noteq> Some i)
   \<and> companies_rows db' = filter (\<lambda>r. \<not> (row_id r = i \<and> user_id r = Some u)) (companies_rows db)"
    unfolding db' by (auto simp: o_def)
qed

theorem delete_company_sets_null_witness:
  "contacts_rows (projr (delete_company True (Authenticated ''alice'') ''c1'' example_db))
     = [jane_doe\<lparr>company_id := None\<rparr>]
   \<and> select_rows (Authenticated ''alice'') contacts
       (contacts_rows (projr (delete_company True (Authenticated ''alice'') ''c1'' example_db)))
     = [jane_doe\<lparr>company_id := None\<rparr>]
   \<and> companies_rows (projr (delete_company True (Authenticated ''alice'') ''c1'' example_db)) = []"
  using delete_company_sets_null [where c = acme and db = example_db and i = "''c1''"
      and u = "''alice''"
      and db' = "projr (delete_company True (Authenticated ''alice'') ''c1'' example_db)"]
  by (simp add: example_db_def acme_def jane_doe_def delete_company_def delete_by_id_auth
      targeted_auth on_delete_set_null_def select_rows_auth Let_def)

lemma activities_step_append_only:
  assumes "activities_step s e ev (db, scr) = (reqs, db', scr')"
  shows "set reqs \<subseteq> {Request SELECT activities, Request INSERT activities}
    \<and> (\<exists>new. activities_rows db' = activities_rows db @ new)
    \<and> companies_rows db' = companies_rows db \<and> contacts_rows db' = contacts_rows db
    \<and> deals_rows db' = deals_rows db \<and> tasks_rows db' = tasks_rows db"
  using assms
  by (cases ev) (auto simp: handleSubmit_activity_def insert_row_def split: if_splits sum.splits)

lemma run_activities_append_only:
  "run_activities s evs (db, scr) = (reqs, db', scr') \<Longrightarrow>
     set reqs \<subseteq> {Request SELECT activities, Request INSERT activities}
   \<and> (\<exists>new. activities_rows db' = activities_rows db @ new)
   \<and> companies_rows db' = companies_rows db \<and> contacts_rows db' = contacts_rows db
   \<and> deals_rows db' = deals_rows db \<and> tasks_rows db' = tasks_rows db"
proof (induction evs arbitrary: db scr reqs db' scr')
  case Nil
  then show ?case by simp
next
  case (Cons x xs)
  obtain r1 d1 s1 where st: "activities_step s (fst x) (snd x) (db, scr) = (r1, d1, s1)"
    by (metis prod_cases3)
  obtain r2 d2 s2 where rn: "run_activities s xs (d1, s1) = (r2, d2, s2)"
    by (metis prod_cases3)
  from Cons.prems st rn have eq: "reqs = r1 @ r2" "db' = d2" "scr' = s2"
    by simp_all
  from activities_step_append_only [OF st] Cons.IH [OF rn] show ?case
    unfolding eq by auto
qed

text \<open>
  C9. Whatever the user does on the Activities screen, from any state of it, the calls
  it issues are selects and inserts on the activities table, never an update or a
  delete; the activities that existed are still there unchanged, new rows only come
  after them, and no other table changes.
\<close>

theorem activities_append_only:
  "run_activities s evs (db, scr) = (reqs, db', scr') \<longrightarrow>
     set reqs \<subseteq> {Request SELECT activities, Request INSERT activities}
   \<and> (\<forall>t. Request UPDATE t \<notin> set reqs \<and> Request DELETE t \<notin> set reqs)
   \<and> (\<exists>new. activities_rows db' = activities_rows db @ new)
   \<and> companies_rows db' = companies_rows db \<and> contacts_rows db' = contacts_rows db
   \<and> deals_rows db' = deals_rows db \<and> tasks_rows db' = tasks_rows db"
  using run_activities_append_only [of s evs db scr reqs db' scr'] by auto

theorem activities_append_only_witness:
  "fst (run_activities (Authenticated ''alice'')
         [(example_env, Mount), (example_env, OpenModal),
          (example_env, ChangeSubject ''Intro''), (example_env, Submit)]
         (example_db, initial_activities_screen 0))
     = [Request SELECT activities, Request INSERT activities]
   \<and> activities_rows (fst (snd (run_activities (Authenticated ''alice'')
         [(example_env, Mount), (example_env, OpenModal),
          (example_env, ChangeSubject ''Intro''), (example_env, Submit)]
         (example_db, initial_activities_screen 0)))) = [logged_call]"
  using activities_append_only [where s = "Authenticated ''alice''"
      and evs = "[(example_env, Mount), (example_env, OpenModal),
          (example_env, ChangeSubject ''Intro''), (example_env, Submit)]"
      and db = example_db and scr = "initial_activities_screen 0"
      and reqs = "fst (run_activities (Authenticated ''alice'')
         [(example_env, Mount), (example_env, OpenModal),
          (example_env, ChangeSubject ''Intro''), (example_env, Submit)]
         (example_db, initial_activities_screen 0))"
      and db' = "fst (snd (run_activities (Authenticated ''alice'')
         [(example_env, Mount), (example_env, OpenModal),
          (example_env, ChangeSubject ''Intro''), (example_env, Submit)]
         (example_db, initial_activities_screen 0)))"
      and scr' = "snd (snd (run_activities (Authenticated ''alice'')
         [(example_env, Mount), (example_env, OpenModal),
          (example_env, ChangeSubject ''Intro''), (example_env, Submit)]
         (example_db, initial_activities_screen 0)))"]
  by (simp add: example_db_def example_env_def initial_activities_screen_def
      blank_activity_form_def fetchActivities_def change_form_def handleSubmit_activity_def
      insert_row_def passes_check_auth new_activity_row_def)

section \<open>The deal form\<close>

lemma write_deal_data_owner: "user_id (write_deal_data data p r) = user_id r"
  by (simp add: write_deal_data_def)

lemma handleSubmit_edit:
  assumes "editingDeal scr = Some d"
    and "to_integer (data_probability (dealData now (formData scr))) = Inr p"
  shows "handleSubmit True fo s now nid sn (db, scr) =
     ([Request UPDATE deals, Request SELECT deals],
      db\<lparr>deals_rows := map (\<lambda>r. if targeted s deals UPDATE (row_id d) r
                                  then write_deal_data (dealData now (formData scr)) p r else r)
                             (deals_rows db)\<rparr>,
      fetchDeals fo s
        (db\<lparr>deals_rows := map (\<lambda>r. if targeted s deals UPDATE (row_id d) r
                                  then write_deal_data (dealData now (formData scr)) p r else r)
                             (deals_rows db)\<rparr>)
        (resetForm (scr\<lparr>deal_modal_open := False, editingDeal := None\<rparr>)))"
  using assms
  by (simp add: handleSubmit_def save_deal_def update_keeping_owner write_deal_data_owner)

lemma parseInt_1000e_minus_1: "parseInt ''1000e-1'' = Num 1000"
  by (simp add: parseInt_def strip_sign_def is_ws_def is_digit_def digits_val_def digit_val_def
      rnd_numeral)

lemma parseFloat_1000e_minus_1: "parseFloat ''1000e-1'' = Num 100"
  by (simp add: parseFloat_def strip_sign_def is_ws_def is_digit_def digits_val_def digit_val_def
      exponent_part_def pow10_def rnd_numeral)

text \<open>
  C3. The claim has the stored probability between 0 and 100. The probability field
  accepts the text \<^verbatim>\<open>1000e-1\<close>: it denotes 100, which is within the \<^verbatim>\<open>min\<close> and \<^verbatim>\<open>max\<close> of
  the input. \<^verbatim>\<open>handleSubmit\<close> reads the field with \<^verbatim>\<open>parseInt\<close>, which stops at the
  \<^verbatim>\<open>e\<close> and yields 1000, and the edit stores 1000 as the probability of the deal.
\<close>

theorem probability_1000e_minus_1_stored_as_1000:
  "form_probability (formData edit_1000e_screen) = ''1000e-1''
   \<and> parseFloat (form_probability (formData edit_1000e_screen)) = Num 100
   \<and> data_probability (dealData 5000 (formData edit_1000e_screen)) = Num 1000
   \<and> probability (deals_rows example_db ! 0) = Some 10
   \<and> probability (deals_rows (fst (snd (handleSubmit True True (Authenticated ''alice'') 5000 ''d3'' 5001
        (example_db, edit_1000e_screen)))) ! 0) = Some 1000"
  by (simp add: handleSubmit_edit [where d = lead_deal and p = "Some 1000"] edit_1000e_screen_def
      dealData_def parseInt_1000e_minus_1 parseFloat_1000e_minus_1 example_db_def targeted_auth
      lead_deal_def write_deal_data_def)

section \<open>The Dashboard figures\<close>

lemma rnd_not_NaN: "rnd q \<noteq> NaN"
  by (simp add: rnd_def Let_def)

lemma Math_round_not_NaN: "x \<noteq> NaN \<Longrightarrow> Math_round x \<noteq> NaN"
  by (cases x) simp_all

lemma toFixed1_not_NaN: "x \<noteq> NaN \<Longrightarrow> toFixed1 x \<noteq> NaN"
  by (cases x) simp_all

lemma js_div_count_not_NaN:
  "0 < n \<Longrightarrow> x \<noteq> NaN \<Longrightarrow> js_div x (count_number n) \<noteq> NaN"
  by (cases x) (simp_all add: count_number_def rnd_not_NaN)

lemma js_mul_100_not_NaN: "x \<noteq> NaN \<Longrightarrow> js_mul x (Num 100) \<noteq> NaN"
  by (cases x) (simp_all add: rnd_not_NaN)

lemma count_number_not_NaN: "count_number n \<noteq> NaN"
  by (simp add: count_number_def)

lemma count_number_nonzero: "n \<noteq> 0 \<Longrightarrow> count_number n \<noteq> Num 0"
  by (simp add: count_number_def)

text \<open>
  C10. The three ratios of the Quick Stats card never divide by zero. With no deals the
  average deal value shown is 0 (so for an empty fetched list), with no companies the
  contacts per company is 0, with no active and no overdue task the completion rate is
  0. Otherwise the division is taken, and then its denominator is not zero. The two
  ratios of counts are never not-a-number, and the average is not either unless the
  total itself is.
\<close>

theorem quick_stats_total:
  "(totalDeals st = 0 \<longrightarrow> averageDealValue st = Num 0)
   \<and> (totalCompanies st = 0 \<longrightarrow> contactsPerCompany st = Num 0)
   \<and> (activeTasks st + overdueTasks st = 0 \<longrightarrow> taskCompletionRate st = Num 0)
   \<and> averageDealValue (dashboard_stats (derive_dashboard now cc co (Some []) td ac)) = Num 0
   \<and> (totalDeals st \<noteq> 0 \<longrightarrow>
         averageDealValue st
           = Math_round (js_div (totalDealValue st) (count_number (totalDeals st)))
       \<and> count_number (totalDeals st) \<noteq> Num 0)
   \<and> (totalCompanies st \<noteq> 0 \<longrightarrow>
         contactsPerCompany st
           = toFixed1 (js_div (count_number (totalContacts st)) (count_number (totalCompanies st)))
       \<and> count_number (totalCompanies st) \<noteq> Num 0)
   \<and> (activeTasks st + overdueTasks st \<noteq> 0 \<longrightarrow>
         taskCompletionRate st
           = Math_round (js_mul (js_div (count_number (activeTasks st))
                                        (count_number (activeTasks st + overdueTasks st)))
                                (Num 100))
       \<and> count_number (activeTasks st + overdueTasks st) \<noteq> Num 0)
   \<and> contactsPerCompany st \<noteq> NaN
   \<and> taskCompletionRate st \<noteq> NaN
   \<and> (totalDealValue st \<noteq> NaN \<longrightarrow> averageDealValue st \<noteq> NaN)"
proof (intro conjI impI)
  show "contactsPerCompany st \<noteq> NaN"
    by (simp add: contactsPerCompany_def toFixed1_not_NaN js_div_count_not_NaN
        count_number_not_NaN)
  show "taskCompletionRate st \<noteq> NaN"
  proof (cases "0 < activeTasks st + overdueTasks st")
    case True
    then have "js_div (count_number (activeTasks st))
                 (count_number (activeTasks st + overdueTasks st)) \<noteq> NaN"
      by (intro js_div_count_not_NaN count_number_not_NaN)
    then show ?thesis
      using True by (simp add: taskCompletionRate_def Math_round_not_NaN js_mul_100_not_NaN)
  next
    case False
    then show ?thesis by (simp add: taskCompletionRate_def)
  qed
  show "averageDealValue st \<noteq> NaN" if "totalDealValue st \<noteq> NaN"
    using that by (simp add: averageDealValue_def Math_round_not_NaN js_div_count_not_NaN)
qed (simp_all add: averageDealValue_def contactsPerCompany_def taskCompletionRate_def
      derive_dashboard_def Let_def count_number_nonzero)

theorem quick_stats_total_witness:
  "averageDealValue (dashboard_stats (derive_dashboard 2000 (Some 3) (Some 0) (Some []) (Some []) None)) = Num 0
   \<and> contactsPerCompany (dashboard_stats (derive_dashboard 2000 (Some 3) (Some 0) (Some []) (Some []) None)) = Num 0
   \<and> taskCompletionRate (dashboard_stats (derive_dashboard 2000 (Some 3) (Some 0) (Some []) (Some []) None)) = Num 0"
  using quick_stats_total [where st = "dashboard_stats (derive_dashboard 2000 (Some 3) (Some 0) (Some []) (Some []) None)"
      and now = 2000 and cc = "Some 3" and co = "Some 0" and td = "Some []" and ac = None]
  by (simp add: derive_dashboard_def count_activeTasks_def count_overdueTasks_def)

lemma stageCount_fold:
  assumes "sg \<noteq> ''__proto__''" "sg \<notin> set object_prototype_methods"
  shows "foldl stage_step m ds sg
     = (case m sg of
          None \<Rightarrow> (if length (filter (\<lambda>d. stage d = sg) ds) = 0 then None
                    else Some (Count (length (filter (\<lambda>d. stage d = sg) ds))))
        | Some (Count n) \<Rightarrow> Some (Count (n + length (filter (\<lambda>d. stage d = sg) ds)))
        | Some (Joined k n) \<Rightarrow> Some (Joined k (n + length (filter (\<lambda>d. stage d = sg) ds))))"
  using assms
proof (induction ds arbitrary: m)
  case Nil
  then show ?case by (simp split: option.splits stage_tally.splits)
next
  case (Cons d ds)
  have step: "stage_step m d sg
     = (if stage d = sg
        then (case m sg of None \<Rightarrow> Some (Count 1)
              | Some (Count n) \<Rightarrow> Some (Count (n + 1))
              | Some (Joined k n) \<Rightarrow> Some (Joined k (n + 1)))
        else m sg)"
    using Cons.prems by (auto simp: stage_step_def split: option.splits stage_tally.splits)
  show ?case
    using Cons.IH [OF Cons.prems, of "stage_step m d"]
    by (simp add: step split: option.splits stage_tally.splits)
qed

lemma stageCount_eq:
  assumes "sg \<noteq> ''__proto__''" "sg \<notin> set object_prototype_methods"
  shows "stageCount ds sg = (if length (filter (\<lambda>d. stage d = sg) ds) = 0 then None
                       else Some (Count (length (filter (\<lambda>d. stage d = sg) ds))))"
  unfolding stageCount_def stageCount_fold [OF assms] by simp

lemma deal_value_number_eq: "deal_value_number d = rnd (deal_amount d)"
  by (simp add: deal_value_number_def deal_amount_def rnd_0 split: option.splits)

lemma totalValue_whole_fold:
  assumes "\<forall>d \<in> set ds. \<exists>n. deal_amount d = of_int n"
    and "of_int \<bar>a\<bar> + sum_list (map (\<lambda>d. \<bar>deal_amount d\<bar>) ds) < (2 :: rat) ^ 53"
  shows "foldl (\<lambda>sum d. js_add sum (deal_value_number d)) (Num (of_int a)) ds
           = Num (of_int a + sum_list (map deal_amount ds))"
  using assms
proof (induction ds arbitrary: a)
  case Nil
  then show ?case by simp
next
  case (Cons d ds)
  then obtain n where n: "deal_amount d = of_int n" by auto
  have nonneg: "0 \<le> sum_list (map (\<lambda>d. \<bar>deal_amount d\<bar>) ds)"
    by (rule sum_list_nonneg) auto
  have bound: "of_int \<bar>a\<bar> + of_int \<bar>n\<bar> + sum_list (map (\<lambda>d. \<bar>deal_amount d\<bar>) ds) < (2 :: rat) ^ 53"
    using Cons.prems(2) n by simp
  then have "(of_int (\<bar>a\<bar> + \<bar>n\<bar>) :: rat) < 2 ^ 53" using nonneg by simp
  then have "\<bar>a\<bar> + \<bar>n\<bar> < 2 ^ 53"
    by (metis of_int_less_iff of_int_numeral of_int_power)
  then have an: "\<bar>a + n\<bar> < 2 ^ 53" and n53: "\<bar>n\<bar> < 2 ^ 53" by linarith+
  have dv: "deal_value_number d = Num (of_int n)"
    using rnd_of_int [OF n53] by (simp add: deal_value_number_eq n)
  have step: "js_add (Num (of_int a)) (deal_value_number d) = Num (of_int (a + n))"
    using rnd_of_int [OF an] by (simp add: dv)
  have "of_int \<bar>a + n\<bar> + sum_list (map (\<lambda>d. \<bar>deal_amount d\<bar>) ds) < (2 :: rat) ^ 53"
  proof -
    have "(of_int \<bar>a + n\<bar> :: rat) \<le> of_int \<bar>a\<bar> + of_int \<bar>n\<bar>"
      by (metis abs_triangle_ineq of_int_add of_int_le_iff)
    with bound show ?thesis by linarith
  qed
  then have "foldl (\<lambda>sum d. js_add sum (deal_value_number d)) (Num (of_int (a + n))) ds
           = Num (of_int (a + n) + sum_list (map deal_amount ds))"
    using Cons.prems(1) by (intro Cons.IH) simp_all
  then show ?case by (simp add: step n)
qed

lemma totalValue_whole:
  assumes "\<forall>d \<in> set ds. \<exists>n. deal_amount d = of_int n"
    and "sum_list (map (\<lambda>d. \<bar>deal_amount d\<bar>) ds) < 2 ^ 53"
  shows "totalValue ds = Num (sum_list (map deal_amount ds))"
  using totalValue_whole_fold [of ds 0] assms by (simp add: totalValue_def)

text \<open>The error of a sum of doubles taken left to right, each term read from its
  decimal first.\<close>

lemma sum_step_algebra:
  fixes n A b c d :: rat
  shows "(1 + n) * ((A + b) / c + d) = n * A / c + n * b / c + n * d + A / c + b / c + d"
  by (simp add: algebra_simps add_divide_distrib)

lemma abs_sum_list_le: "\<bar>sum_list xs\<bar> \<le> sum_list (map abs xs)" for xs :: "rat list"
  by (induction xs) auto

lemma sum_list_abs_nonneg: "0 \<le> sum_list (map abs xs)" for xs :: "rat list"
  by (rule sum_list_nonneg) auto

lemma sum_step_arith:
  fixes dz dv dw az av aa azv aT A nA nh h :: rat
  assumes "0 \<le> h" "0 \<le> aa" "0 \<le> A"
    and "dz \<le> nA / 2 ^ 51 + 4 * nh"
    and "aT \<le> A"
    and "nA \<le> 2 ^ 50 * A"
    and "0 \<le> nh" "nh \<le> 2 ^ 50 * h"
    and "dv \<le> aa / 2 ^ 53 + h"
    and "dw \<le> azv / 2 ^ 53 + h"
    and "az \<le> dz + aT" "av \<le> dv + aa" "azv \<le> az + av"
  shows "azv \<le> 2 * (A + aa) + 2 ^ 53 * h"
    and "dw + dz + dv \<le> nA / 2 ^ 51 + 4 * nh + A / 2 ^ 51 + aa / 2 ^ 51 + 4 * h"
  using assms by simp_all

lemma double_sum_step:
  fixes z T a A n :: rat
  assumes ez: "\<bar>z - T\<bar> \<le> n * A / 2 ^ 51 + n / 2 ^ 1073"
    and TA: "\<bar>T\<bar> \<le> A"
    and n: "0 \<le> n" "n \<le> 2 ^ 50"
    and Aa: "A + \<bar>a\<bar> < 2 ^ 1000"
  shows "rnd a = Num (fl a) \<and> rnd (z + fl a) = Num (fl (z + fl a))
       \<and> \<bar>fl (z + fl a) - (T + a)\<bar>
           \<le> n * A / 2 ^ 51 + n / 2 ^ 1073 + A / 2 ^ 51 + \<bar>a\<bar> / 2 ^ 51 + 1 / 2 ^ 1073"
proof -
  define h :: rat where "h = 1 / 2 ^ 1075"
  have h0: "0 \<le> h" by (simp add: h_def)
  have h4: "1 / 2 ^ 1073 = 4 * h" by (simp add: h_def)
  have n4: "n / 2 ^ 1073 = 4 * (n * h)" by (simp add: h_def)
  have h53: "2 ^ 53 * h \<le> 1" by (simp add: h_def)
  have A0: "0 \<le> A" using TA by simp
  have nA: "n * A \<le> 2 ^ 50 * A" using n(2) A0 by (rule mult_right_mono)
  have nh0: "0 \<le> n * h" using n(1) h0 by simp
  have nh: "n * h \<le> 2 ^ 50 * h" using n(2) h0 by (rule mult_right_mono)
  have ea: "\<bar>fl a - a\<bar> \<le> \<bar>a\<bar> / 2 ^ 53 + h"
    unfolding h_def by (rule fl_abs_error)
  have es: "\<bar>fl (z + fl a) - (z + fl a)\<bar> \<le> \<bar>z + fl a\<bar> / 2 ^ 53 + h"
    unfolding h_def by (rule fl_abs_error)
  have ez': "\<bar>z - T\<bar> \<le> n * A / 2 ^ 51 + 4 * (n * h)"
    using ez by (simp only: n4)
  have t1: "\<bar>z\<bar> \<le> \<bar>z - T\<bar> + \<bar>T\<bar>" by simp
  have t2: "\<bar>fl a\<bar> \<le> \<bar>fl a - a\<bar> + \<bar>a\<bar>" by simp
  have t3: "\<bar>z + fl a\<bar> \<le> \<bar>z\<bar> + \<bar>fl a\<bar>" by simp
  have t4: "\<bar>fl (z + fl a) - (T + a)\<bar>
              \<le> \<bar>fl (z + fl a) - (z + fl a)\<bar> + \<bar>z - T\<bar> + \<bar>fl a - a\<bar>" by simp
  have aa0: "0 \<le> \<bar>a\<bar>" by simp
  note ar = sum_step_arith [OF h0 aa0 A0 ez' order_refl nA nh0 nh ea es]
  have zv: "\<bar>z + fl a\<bar> \<le> 2 * (A + \<bar>a\<bar>) + 2 ^ 53 * h"
    using t1 t2 t3 TA by (intro ar(1)) simp_all
  have tot: "\<bar>fl (z + fl a) - (z + fl a)\<bar> + \<bar>z - T\<bar> + \<bar>fl a - a\<bar>
               \<le> n * A / 2 ^ 51 + 4 * (n * h) + A / 2 ^ 51 + \<bar>a\<bar> / 2 ^ 51 + 4 * h"
    using t1 t2 t3 TA by (intro ar(2)) simp_all
  have "\<bar>z + fl a\<bar> \<le> 2 * (A + \<bar>a\<bar>) + 1" using zv h53 by simp
  also have "\<dots> < 2 * 2 ^ 1000 + 1" using Aa by simp
  also have "\<dots> < (2 :: rat) ^ 1023" by simp
  finally have r2: "rnd (z + fl a) = Num (fl (z + fl a))" by (rule rnd_small)
  have "\<bar>a\<bar> \<le> A + \<bar>a\<bar>" using A0 by simp
  also note Aa
  also have "(2 :: rat) ^ 1000 < 2 ^ 1023" by simp
  finally have r1: "rnd a = Num (fl a)" by (rule rnd_small)
  have "\<bar>fl (z + fl a) - (T + a)\<bar>
          \<le> n * A / 2 ^ 51 + 4 * (n * h) + A / 2 ^ 51 + \<bar>a\<bar> / 2 ^ 51 + 4 * h"
    using t4 tot by (rule order_trans)
  then have "\<bar>fl (z + fl a) - (T + a)\<bar>
          \<le> n * A / 2 ^ 51 + n / 2 ^ 1073 + A / 2 ^ 51 + \<bar>a\<bar> / 2 ^ 51 + 1 / 2 ^ 1073"
    by (simp only: n4 h4)
  with r1 r2 show ?thesis by simp
qed

lemma double_sum_error:
  fixes xs :: "rat list"
  assumes "length xs < 2 ^ 50" "sum_list (map abs xs) < 2 ^ 1000"
  shows "\<exists>z. foldl (\<lambda>s a. js_add s (rnd a)) (Num 0) xs = Num z
           \<and> \<bar>z - sum_list xs\<bar>
               \<le> of_nat (length xs) * (sum_list (map abs xs) / 2 ^ 51 + 1 / 2 ^ 1073)"
  using assms
proof (induction xs rule: rev_induct)
  case Nil
  then show ?case by simp
next
  case (snoc a xs)
  define A where "A = sum_list (map abs xs)"
  define T where "T = sum_list xs"
  define n :: rat where "n = of_nat (length xs)"
  have A0: "0 \<le> A" unfolding A_def by (rule sum_list_abs_nonneg)
  have TA: "\<bar>T\<bar> \<le> A" unfolding T_def A_def by (rule abs_sum_list_le)
  have Aa: "A + \<bar>a\<bar> < 2 ^ 1000" using snoc.prems(2) by (simp add: A_def)
  have len: "length xs < 2 ^ 50" using snoc.prems(1) by simp
  then have "(of_nat (length xs) :: rat) \<le> of_nat (2 ^ 50)"
    by (intro of_nat_mono) simp
  then have n1: "n \<le> 2 ^ 50" by (simp add: n_def)
  have n0: "0 \<le> n" by (simp add: n_def)
  have "A \<le> A + \<bar>a\<bar>" by simp
  then have "A < 2 ^ 1000" using Aa by (rule le_less_trans)
  then have "sum_list (map abs xs) < 2 ^ 1000" by (simp only: A_def)
  with len obtain z where z: "foldl (\<lambda>s a. js_add s (rnd a)) (Num 0) xs = Num z"
    and ez: "\<bar>z - T\<bar> \<le> n * (A / 2 ^ 51 + 1 / 2 ^ 1073)"
    using snoc.IH unfolding A_def T_def n_def by blast
  have ez': "\<bar>z - T\<bar> \<le> n * A / 2 ^ 51 + n / 2 ^ 1073"
    using ez by (simp only: distrib_left times_divide_eq_right mult_1_right)
  note st = double_sum_step [OF ez' TA n0 n1 Aa]
  have na: "0 \<le> n * \<bar>a\<bar> / 2 ^ 51" using n0 by simp
  have "\<bar>fl (z + fl a) - (T + a)\<bar>
          \<le> n * A / 2 ^ 51 + n * \<bar>a\<bar> / 2 ^ 51 + n * (1 / 2 ^ 1073)
             + A / 2 ^ 51 + \<bar>a\<bar> / 2 ^ 51 + 1 / 2 ^ 1073"
    using st na by (simp only: times_divide_eq_right mult_1_right) linarith
  then have "\<bar>fl (z + fl a) - (T + a)\<bar> \<le> (1 + n) * ((A + \<bar>a\<bar>) / 2 ^ 51 + 1 / 2 ^ 1073)"
    by (simp only: sum_step_algebra)
  moreover have "foldl (\<lambda>s a. js_add s (rnd a)) (Num 0) (xs @ [a]) = Num (fl (z + fl a))"
    using z st by simp
  ultimately show ?case
    by (simp add: A_def T_def n_def)
qed

lemma totalValue_amounts:
  "totalValue ds = foldl (\<lambda>s a. js_add s (rnd a)) (Num 0) (map deal_amount ds)"
  by (simp add: totalValue_def foldl_map deal_value_number_eq)

lemma totalValue_error:
  assumes "length ds < 2 ^ 50" "sum_list (map (\<lambda>d. \<bar>deal_amount d\<bar>) ds) < 2 ^ 1000"
  shows "\<exists>z. totalValue ds = Num z
           \<and> \<bar>z - sum_list (map deal_amount ds)\<bar>
               \<le> of_nat (length ds)
                  * (sum_list (map (\<lambda>d. \<bar>deal_amount d\<bar>) ds) / 2 ^ 51 + 1 / 2 ^ 1073)"
proof -
  have m: "map abs (map deal_amount ds) = map (\<lambda>d. \<bar>deal_amount d\<bar>) ds" by simp
  have "length (map deal_amount ds) < 2 ^ 50" using assms(1) by simp
  moreover have "sum_list (map abs (map deal_amount ds)) < 2 ^ 1000"
    using assms(2) by (simp only: m)
  ultimately have "\<exists>z. foldl (\<lambda>s a. js_add s (rnd a)) (Num 0) (map deal_amount ds) = Num z
           \<and> \<bar>z - sum_list (map deal_amount ds)\<bar>
               \<le> of_nat (length (map deal_amount ds))
                  * (sum_list (map abs (map deal_amount ds)) / 2 ^ 51 + 1 / 2 ^ 1073)"
    by (rule double_sum_error)
  then show ?thesis by (simp only: m totalValue_amounts length_map)
qed

text \<open>
  C4 (as amended). For a fetched deal list the dashboard's deal count is its length. Its
  total deal value is the sum of the values taken in double precision, a null value
  adding nothing: for whole amounts whose magnitudes add up to less than \<open>2 ^ 53\<close> it is
  the exact sum, and for fewer than \<open>2 ^ 50\<close> deals whose magnitudes add up to less than
  \<open>2 ^ 1000\<close> it is a finite number that differs from the exact sum by at most the
  number of deals times \<open>S / 2 ^ 51 + 1 / 2 ^ 1073\<close>, where \<open>S\<close> is the sum of the
  magnitudes. The per-stage counts map a stage that is not the name of a property of
  \<^verbatim>\<open>Object.prototype\<close> to the number of fetched deals in that stage, and have no
  entry for such a stage without deals. Two deals of 1000 at \<^verbatim>\<open>lead\<close> and 2000 at
  \<^verbatim>\<open>qualified\<close> give 3000 and one deal in each of the two stages.
\<close>

theorem dashboard_deal_totals:
  "totalDeals (dashboard_stats (derive_dashboard now cc co (Some ds) td ac)) = length ds
   \<and> ((\<forall>d \<in> set ds. \<exists>n. deal_amount d = of_int n)
        \<and> sum_list (map (\<lambda>d. \<bar>deal_amount d\<bar>) ds) < 2 ^ 53 \<longrightarrow>
          totalDealValue (dashboard_stats (derive_dashboard now cc co (Some ds) td ac))
            = Num (sum_list (map deal_amount ds)))
   \<and> (length ds < 2 ^ 50 \<and> sum_list (map (\<lambda>d. \<bar>deal_amount d\<bar>) ds) < 2 ^ 1000 \<longrightarrow>
          (\<exists>z. totalDealValue (dashboard_stats (derive_dashboard now cc co (Some ds) td ac)) = Num z
             \<and> \<bar>z - sum_list (map deal_amount ds)\<bar>
                 \<le> of_nat (length ds)
                    * (sum_list (map (\<lambda>d. \<bar>deal_amount d\<bar>) ds) / 2 ^ 51 + 1 / 2 ^ 1073)))
   \<and> (sg \<noteq> ''__proto__'' \<and> sg \<notin> set object_prototype_methods \<longrightarrow>
          dealsByStage (derive_dashboard now cc co (Some ds) td ac) sg
            = (if length (filter (\<lambda>d. stage d = sg) ds) = 0 then None
               else Some (Count (length (filter (\<lambda>d. stage d = sg) ds)))))
   \<and> totalDealValue (dashboard_stats
         (derive_dashboard now cc co (Some [lead_deal, qualified_deal]) td ac)) = Num 3000
   \<and> dealsByStage (derive_dashboard now cc co (Some [lead_deal, qualified_deal]) td ac)
       = [''lead'' \<mapsto> Count 1, ''qualified'' \<mapsto> Count 1]"
proof (intro conjI impI)
  have total: "totalDealValue (dashboard_stats (derive_dashboard now cc co (Some xs) td ac))
                 = totalValue xs" for xs
    by (simp add: derive_dashboard_def Let_def)
  have stages: "dealsByStage (derive_dashboard now cc co (Some xs) td ac) = stageCount xs" for xs
    by (simp add: derive_dashboard_def Let_def)
  show "totalDeals (dashboard_stats (derive_dashboard now cc co (Some ds) td ac)) = length ds"
    by (simp add: derive_dashboard_def Let_def)
  show "totalDealValue (dashboard_stats (derive_dashboard now cc co (Some ds) td ac))
            = Num (sum_list (map deal_amount ds))"
    if "(\<forall>d \<in> set ds. \<exists>n. deal_amount d = of_int n)
        \<and> sum_list (map (\<lambda>d. \<bar>deal_amount d\<bar>) ds) < 2 ^ 53"
    using totalValue_whole [OF conjunct1 [OF that] conjunct2 [OF that]] by (simp only: total)
  show "\<exists>z. totalDealValue (dashboard_stats (derive_dashboard now cc co (Some ds) td ac)) = Num z
             \<and> \<bar>z - sum_list (map deal_amount ds)\<bar>
                 \<le> of_nat (length ds)
                    * (sum_list (map (\<lambda>d. \<bar>deal_amount d\<bar>) ds) / 2 ^ 51 + 1 / 2 ^ 1073)"
    if "length ds < 2 ^ 50 \<and> sum_list (map (\<lambda>d. \<bar>deal_amount d\<bar>) ds) < 2 ^ 1000"
    using totalValue_error [OF conjunct1 [OF that] conjunct2 [OF that]] by (simp only: total)
  show "dealsByStage (derive_dashboard now cc co (Some ds) td ac) sg
            = (if length (filter (\<lambda>d. stage d = sg) ds) = 0 then None
               else Some (Count (length (filter (\<lambda>d. stage d = sg) ds))))"
    if "sg \<noteq> ''__proto__'' \<and> sg \<notin> set object_prototype_methods"
    using stageCount_eq [OF conjunct1 [OF that] conjunct2 [OF that]] by (simp only: stages)
  show "totalDealValue (dashboard_stats
         (derive_dashboard now cc co (Some [lead_deal, qualified_deal]) td ac)) = Num 3000"
    unfolding total
    by (simp add: totalValue_def deal_value_number_def lead_deal_def qualified_deal_def
        rnd_numeral)
  show "dealsByStage (derive_dashboard now cc co (Some [lead_deal, qualified_deal]) td ac)
       = [''lead'' \<mapsto> Count 1, ''qualified'' \<mapsto> Count 1]"
    unfolding stages
    by (simp add: stageCount_def stage_step_def object_prototype_methods_def lead_deal_def
        qualified_deal_def)
qed

theorem dashboard_deal_totals_witness:
  "totalDealValue (dashboard_stats
       (derive_dashboard 2000 None None (Some [lead_deal, qualified_deal]) None None))
     = Num (sum_list (map deal_amount [lead_deal, qualified_deal]))
   \<and> sum_list (map deal_amount [lead_deal, qualified_deal]) = 3000
   \<and> (\<exists>z. totalDealValue (dashboard_stats
              (derive_dashboard 2000 None None (Some [lead_deal, qualified_deal]) None None)) = Num z
          \<and> \<bar>z - sum_list (map deal_amount [lead_deal, qualified_deal])\<bar>
              \<le> of_nat (length [lead_deal, qualified_deal])
                 * (sum_list (map (\<lambda>d. \<bar>deal_amount d\<bar>) [lead_deal, qualified_deal]) / 2 ^ 51
                    + 1 / 2 ^ 1073))
   \<and> dealsByStage (derive_dashboard 2000 None None (Some [lead_deal, qualified_deal]) None None)
       ''lead'' = Some (Count 1)"
proof -
  have "deal_amount lead_deal = of_int 1000" "deal_amount qualified_deal = of_int 2000"
    by (simp_all add: deal_amount_def lead_deal_def qualified_deal_def)
  then have w: "\<forall>d \<in> set [lead_deal, qualified_deal]. \<exists>n. deal_amount d = of_int n"
    by (metis list.set_cases list.sel(3) list.inject set_ConsD empty_iff empty_set)
  have b: "sum_list (map (\<lambda>d. \<bar>deal_amount d\<bar>) [lead_deal, qualified_deal]) < 2 ^ 53"
    by (simp add: deal_amount_def lead_deal_def qualified_deal_def)
  have l: "length [lead_deal, qualified_deal] < 2 ^ 50" by simp
  have b2: "sum_list (map (\<lambda>d. \<bar>deal_amount d\<bar>) [lead_deal, qualified_deal]) < 2 ^ 1000"
    by (simp add: deal_amount_def lead_deal_def qualified_deal_def)
  have p: "''lead'' \<noteq> ''__proto__'' \<and> ''lead'' \<notin> set object_prototype_methods"
    by (simp add: object_prototype_methods_def)
  have c: "length (filter (\<lambda>d. stage d = ''lead'') [lead_deal, qualified_deal]) = 1"
    by (simp add: lead_deal_def qualified_deal_def)
  have s: "sum_list (map deal_amount [lead_deal, qualified_deal]) = 3000"
    by (simp add: deal_amount_def lead_deal_def qualified_deal_def)
  note t = dashboard_deal_totals [where ds = "[lead_deal, qualified_deal]" and now = 2000
        and cc = None and co = None and td = None and ac = None and sg = "''lead''"]
  from t w b have 1: "totalDealValue (dashboard_stats
       (derive_dashboard 2000 None None (Some [lead_deal, qualified_deal]) None None))
     = Num (sum_list (map deal_amount [lead_deal, qualified_deal]))" by blast
  from t l b2 have 2: "\<exists>z. totalDealValue (dashboard_stats
              (derive_dashboard 2000 None None (Some [lead_deal, qualified_deal]) None None)) = Num z
          \<and> \<bar>z - sum_list (map deal_amount [lead_deal, qualified_deal])\<bar>
              \<le> of_nat (length [lead_deal, qualified_deal])
                 * (sum_list (map (\<lambda>d. \<bar>deal_amount d\<bar>) [lead_deal, qualified_deal]) / 2 ^ 51
                    + 1 / 2 ^ 1073)" by blast
  from t p have "dealsByStage
       (derive_dashboard 2000 None None (Some [lead_deal, qualified_deal]) None None) ''lead''
     = (if length (filter (\<lambda>d. stage d = ''lead'') [lead_deal, qualified_deal]) = 0 then None
        else Some (Count (length (filter (\<lambda>d. stage d = ''lead'') [lead_deal, qualified_deal]))))"
    by blast
  then have 3: "dealsByStage
       (derive_dashboard 2000 None None (Some [lead_deal, qualified_deal]) None None) ''lead''
     = Some (Count 1)" by (simp only: c) simp
  from 1 s 2 3 show ?thesis by blast
qed

text \<open>
  C4 as stated fails: two deals of a tenth and of a fifth total
  \<open>0.30000000000000004\<close> on the dashboard, which is not three tenths. A deal whose
  stage is \<^verbatim>\<open>constructor\<close> is tallied as a text and not as the count 1, and a deal
  whose stage is \<^verbatim>\<open>__proto__\<close> is not tallied.
\<close>

theorem tenth_and_fifth_total_is_not_their_sum:
  "totalDealValue (dashboard_stats
       (derive_dashboard 2000 None None (Some [tenth_deal, fifth_deal]) None None))
     = Num (1351079888211149 / 4503599627370496)
   \<and> sum_list (map deal_amount [tenth_deal, fifth_deal]) = 3 / 10
   \<and> totalDealValue (dashboard_stats
       (derive_dashboard 2000 None None (Some [tenth_deal, fifth_deal]) None None))
     \<noteq> Num (sum_list (map deal_amount [tenth_deal, fifth_deal]))
   \<and> dealsByStage (derive_dashboard 2000 None None (Some [constructor_deal, proto_deal]) None None)
       ''constructor'' = Some (Joined ''constructor'' 1)
   \<and> dealsByStage (derive_dashboard 2000 None None (Some [constructor_deal, proto_deal]) None None)
       ''__proto__'' = None"
  by (simp add: derive_dashboard_def Let_def totalValue_def deal_value_number_def deal_amount_def
      tenth_deal_def fifth_deal_def constructor_deal_def proto_deal_def lead_deal_def
      stageCount_def stage_step_def object_prototype_methods_def
      rnd_eq_Num fl_tenth fl_fifth fl_double_tenth fl_tenth_plus_fifth)

section \<open>The completion rate in double precision\<close>

lemma fl_23_40: "fl (23 / 40) = 2589569785738035 / 4503599627370496"
  using fl_pos_eq [of "- 1" "23 / 40"]
  by (simp add: pow2_def round_half_even_def Let_def floor_rat_numeral)

lemma fl_23_40_times_100:
  "fl (64739244643450875 / 1125899906842624) = 8092405580431359 / 140737488355328"
  using fl_pos_eq [of 5 "64739244643450875 / 1125899906842624"]
  by (simp add: pow2_def round_half_even_def Let_def floor_rat_numeral)

lemma rate_23_17:
  "Math_round (js_mul (js_div (Num 23) (Num 40)) (Num 100)) = Num 57"
proof -
  have "js_div (Num 23) (Num 40) = Num (2589569785738035 / 4503599627370496)"
    using rnd_eq_Num [of "23 / 40"] by (simp add: fl_23_40)
  moreover have "js_mul (Num (2589569785738035 / 4503599627370496)) (Num 100)
      = Num (8092405580431359 / 140737488355328)"
    using rnd_eq_Num [of "64739244643450875 / 1125899906842624"]
    by (simp add: fl_23_40_times_100)
  ultimately show ?thesis by (simp add: floor_rat_numeral)
qed


lemma rate_double_error:
  fixes a v :: nat
  assumes "0 < a" "v \<le> a"
  shows "\<exists>z. js_mul (js_div (Num (of_nat a)) (Num (of_nat (a + v)))) (Num 100) = Num z
           \<and> \<bar>z - 100 * of_nat a / of_nat (a + v)\<bar> < 1 / 2 ^ 46"
proof -
  define x :: rat where "x = of_nat a / of_nat (a + v)"
  have n0: "(0 :: rat) < of_nat (a + v)" using assms by simp
  have "(of_nat (a + v) :: rat) \<le> of_nat (2 * a)"
    using assms(2) by (intro of_nat_mono) simp
  then have "(of_nat (a + v) :: rat) \<le> 2 * of_nat a" by simp
  then have xl: "1 / 2 \<le> x" using n0 by (simp add: x_def field_simps)
  have "(of_nat a :: rat) \<le> of_nat (a + v)" by (intro of_nat_mono) simp
  then have xu: "x \<le> 1" using n0 by (simp add: x_def field_simps)
  have fx: "\<bar>fl x - x\<bar> \<le> 1 / 2 ^ 54"
  proof (cases "x = 1")
    case True
    then show ?thesis using fl_of_nat [of 1] by simp
  next
    case False
    with xu have "x < 1" by simp
    then have "\<bar>fl x - x\<bar> \<le> pow2 (- 1 - 53)"
      using xl by (intro fl_error) (simp_all add: pow2_def)
    then show ?thesis by (simp add: pow2_def)
  qed
  have fxl: "1 / 2 - 1 / 2 ^ 54 \<le> fl x" and fxu: "fl x \<le> 1 + 1 / 2 ^ 54"
    using fx xl xu unfolding abs_le_iff by simp_all
  have "\<bar>fl x\<bar> < 2 ^ 1024" using fxl fxu unfolding abs_less_iff by simp
  then have rx: "rnd x = Num (fl x)" by (rule rnd_eq_Num)
  define y where "y = fl x * 100"
  have yl: "32 \<le> y" and yu: "y < 128" using fxl fxu by (simp_all add: y_def)
  then have y0: "0 < y" by simp
  define e where "e = ilog2 y"
  note b = ilog2_bounds [OF y0, folded e_def]
  have e6: "e \<le> 6"
  proof (rule ccontr)
    assume "\<not> e \<le> 6"
    then have "pow2 7 \<le> pow2 e" by (intro pow2_mono) simp
    with b yu show False by (simp add: pow2_def)
  qed
  have e5: "5 \<le> e"
  proof (rule ccontr)
    assume "\<not> 5 \<le> e"
    then have "pow2 (e + 1) \<le> pow2 5" by (intro pow2_mono) simp
    with b yl show False by (simp add: pow2_def)
  qed
  have "\<bar>fl y - y\<bar> \<le> pow2 (e - 53)"
    using b e5 by (intro fl_error) simp_all
  moreover have "pow2 (e - 53) \<le> pow2 (- 47)" using e6 by (intro pow2_mono) simp
  ultimately have fy: "\<bar>fl y - y\<bar> \<le> 1 / 2 ^ 47" by (simp add: pow2_def)
  have "\<bar>fl y\<bar> < 2 ^ 1024" using fy yl yu unfolding abs_le_iff abs_less_iff by simp
  then have ry: "rnd y = Num (fl y)" by (rule rnd_eq_Num)
  have "y - 100 * x = 100 * (fl x - x)" by (simp add: y_def)
  then have "\<bar>y - 100 * x\<bar> = \<bar>100 * (fl x - x)\<bar>" by (rule arg_cong)
  also have "\<dots> = 100 * \<bar>fl x - x\<bar>" unfolding abs_mult by simp
  finally have "\<bar>y - 100 * x\<bar> = 100 * \<bar>fl x - x\<bar>" .
  with fx have yx: "\<bar>y - 100 * x\<bar> \<le> 100 / 2 ^ 54" by simp
  have "\<bar>fl y - 100 * x\<bar> \<le> \<bar>fl y - y\<bar> + \<bar>y - 100 * x\<bar>" by simp
  with fy yx have "\<bar>fl y - 100 * x\<bar> < 1 / 2 ^ 46" by simp
  moreover have "js_mul (js_div (Num (of_nat a)) (Num (of_nat (a + v)))) (Num 100) = Num (fl y)"
    using n0 rx ry by (simp add: x_def y_def)
  ultimately show ?thesis by (auto simp: x_def)
qed

lemma half_up_stable:
  fixes a v :: nat and z :: rat
  assumes n: "0 < a + v" "a + v \<le> 2 ^ 45"
    and z: "\<bar>z - 100 * of_nat a / of_nat (a + v)\<bar> < 1 / 2 ^ 46"
  shows "(\<not> 2 * (a + v) dvd 200 * a + (a + v) \<longrightarrow>
            \<lfloor>z + 1 / 2\<rfloor> = \<lfloor>100 * of_nat a / of_nat (a + v) + 1 / 2 :: rat\<rfloor>)
       \<and> (\<lfloor>z + 1 / 2\<rfloor> = \<lfloor>100 * of_nat a / of_nat (a + v) + 1 / 2 :: rat\<rfloor>
          \<or> \<lfloor>z + 1 / 2\<rfloor> = \<lfloor>100 * of_nat a / of_nat (a + v) + 1 / 2 :: rat\<rfloor> - 1)"
proof -
  define N where "N = 2 * (a + v)"
  define P where "P = 200 * a + (a + v)"
  define k where "k = P div N"
  define m where "m = P mod N"
  define r :: rat where "r = 100 * of_nat a / of_nat (a + v)"
  define t :: rat where "t = of_nat m / of_nat N"
  have N0: "0 < N" using n(1) by (simp add: N_def)
  then have N0': "(0 :: rat) < of_nat N" by simp
  have mN: "m < N" using N0 by (simp add: m_def)
  have P: "P = k * N + m" by (simp add: k_def m_def)
  have "(0 :: rat) < of_nat (a + v)" using n(1) by (simp del: of_nat_add)
  then have nz: "(of_nat a + of_nat v :: rat) \<noteq> 0" by simp
  have "r + 1 / 2 = of_nat P / of_nat N"
    using nz by (simp add: r_def P_def N_def field_simps)
  also have "\<dots> = of_nat k + t"
    using N0' by (simp add: P t_def field_simps)
  finally have dec: "r + 1 / 2 = of_nat k + t" .
  have "N \<le> 2 * 2 ^ 45" using n(2) by (simp add: N_def)
  then have "(of_nat N :: rat) \<le> of_nat (2 * 2 ^ 45)" by (intro of_nat_mono)
  then have Nb: "(of_nat N :: rat) \<le> 2 ^ 46" by simp
  have inv: "1 / 2 ^ 46 \<le> 1 / (of_nat N :: rat)"
    using Nb N0' by (intro divide_left_mono) simp_all
  have t0: "0 \<le> t" using N0' by (simp add: t_def)
  have "(of_nat (m + 1) :: rat) \<le> of_nat N" using mN by (intro of_nat_mono) simp
  then have "(of_nat m + 1) / (of_nat N :: rat) \<le> 1" using N0' by simp
  then have thi: "t \<le> 1 - 1 / of_nat N" by (simp add: t_def add_divide_distrib)
  have zr: "- (1 / 2 ^ 46) < z - r" "z - r < 1 / 2 ^ 46"
    using z unfolding r_def abs_less_iff by simp_all
  have zdec: "z + 1 / 2 = of_nat k + t + (z - r)" using dec by simp
  have fr: "\<lfloor>r + 1 / 2\<rfloor> = int k"
  proof (rule floor_unique)
    show "of_int (int k) \<le> r + 1 / 2" using dec t0 by simp
    have "0 < 1 / (of_nat N :: rat)" using N0' by simp
    with thi have "t < 1" by linarith
    then show "r + 1 / 2 < of_int (int k) + 1" using dec by simp
  qed
  have stable: "\<lfloor>z + 1 / 2\<rfloor> = int k" if "m \<noteq> 0"
  proof (rule floor_unique)
    have "(of_nat 1 :: rat) \<le> of_nat m" using that by (intro of_nat_mono) simp
    then have "1 / (of_nat N :: rat) \<le> t"
      using N0' by (simp add: t_def divide_right_mono)
    with inv have "1 / 2 ^ 46 \<le> t" by (rule order_trans)
    with zr(1) have "0 < t + (z - r)" by linarith
    then show "of_int (int k) \<le> z + 1 / 2" using zdec by simp
    have "t + (z - r) < 1" using thi inv zr(2) by linarith
    then show "z + 1 / 2 < of_int (int k) + 1" using zdec by simp
  qed
  have near: "\<lfloor>z + 1 / 2\<rfloor> = int k \<or> \<lfloor>z + 1 / 2\<rfloor> = int k - 1"
  proof (cases "m = 0")
    case False
    then show ?thesis using stable by simp
  next
    case True
    then have t: "t = 0" by (simp add: t_def)
    have small: "(1 :: rat) / 2 ^ 46 < 1" by simp
    show ?thesis
    proof (cases "0 \<le> z - r")
      case True
      have "\<lfloor>z + 1 / 2\<rfloor> = int k"
      proof (rule floor_unique)
        show "of_int (int k) \<le> z + 1 / 2" using zdec t True by simp
        show "z + 1 / 2 < of_int (int k) + 1" using zdec t zr(2) small by simp
      qed
      then show ?thesis by simp
    next
      case False
      have "\<lfloor>z + 1 / 2\<rfloor> = int k - 1"
      proof (rule floor_unique)
        show "of_int (int k - 1) \<le> z + 1 / 2" using zdec t zr(1) small by simp
        show "z + 1 / 2 < of_int (int k - 1) + 1" using zdec t False by simp
      qed
      then show ?thesis by simp
    qed
  qed
  have "m \<noteq> 0" if "\<not> 2 * (a + v) dvd 200 * a + (a + v)"
    using that by (simp add: m_def P_def N_def dvd_eq_mod_eq_0)
  with stable near fr show ?thesis by (simp add: r_def)
qed

lemma rate_rounds_half_up:
  fixes a v :: nat
  assumes "0 < a" "v \<le> a" "a + v \<le> 2 ^ 45"
  shows "\<exists>k. Math_round (js_mul (js_div (Num (of_nat a)) (Num (of_nat (a + v)))) (Num 100))
             = Num (of_int k)
           \<and> (k = \<lfloor>100 * of_nat a / of_nat (a + v) + 1 / 2 :: rat\<rfloor>
              \<or> k = \<lfloor>100 * of_nat a / of_nat (a + v) + 1 / 2 :: rat\<rfloor> - 1)
           \<and> (\<not> 2 * (a + v) dvd 200 * a + (a + v) \<longrightarrow>
                 k = \<lfloor>100 * of_nat a / of_nat (a + v) + 1 / 2 :: rat\<rfloor>)"
proof -
  from rate_double_error [OF assms(1,2)] obtain z
    where z: "js_mul (js_div (Num (of_nat a)) (Num (of_nat (a + v)))) (Num 100) = Num z"
      "\<bar>z - 100 * of_nat a / of_nat (a + v)\<bar> < 1 / 2 ^ 46"
    by blast
  have "0 < a + v" using assms(1) by simp
  from half_up_stable [OF this assms(3) z(2)] z(1) show ?thesis by simp
qed

lemma count_overdue_le_active: "count_overdueTasks now ts \<le> count_activeTasks ts"
  unfolding count_overdueTasks_def count_activeTasks_def
  by (induction ts) auto

lemma length_filter_less_upt: "length (filter (\<lambda>k. k < m) [0..<n]) = min m n"
  by (induction n) auto

lemma rate_23_17_rnd: "Math_round (js_mul (rnd (23 / 40)) (Num 100)) = Num 57"
  using rate_23_17 by simp

lemma twenty_three_active: "count_activeTasks twenty_three_tasks = 23"
  by (simp add: twenty_three_tasks_def count_activeTasks_def is_active_def pending_task_def
      o_def)

lemma seventeen_overdue: "count_overdueTasks 2000 twenty_three_tasks = 17"
  by (simp add: twenty_three_tasks_def count_overdueTasks_def is_active_def pending_task_def
      o_def filter_map length_filter_less_upt)

text \<open>
  C5 (as amended). For a fetched task list the active count is the number of tasks that
  are pending or in progress, and the overdue count is the number of those whose due
  date is set and before the instant of the fetch, so overdue never exceeds active. With
  no active task the rate shown is 0. With at least one, and at most \<open>2 ^ 45\<close> counted
  altogether, the rate shown is a whole number: it is 100 times active over active plus
  overdue, rounded to the nearest whole number with halves up, except that where this
  quotient lies exactly half-way between two whole numbers the double arithmetic of
  \<^verbatim>\<open>(active / (active + overdue)) * 100\<close> may yield the whole number below.
\<close>

theorem dashboard_task_figures:
  "st = dashboard_stats (derive_dashboard now cc co dd (Some ts) ac) \<longrightarrow>
     activeTasks st = length (filter (\<lambda>t. status t = pending \<or> status t = in_progress) ts)
   \<and> overdueTasks st
       = length (filter (\<lambda>t. (status t = pending \<or> status t = in_progress)
                             \<and> (\<exists>d. due_date t = Some d \<and> d < now)) ts)
   \<and> overdueTasks st \<le> activeTasks st
   \<and> (activeTasks st = 0 \<longrightarrow> taskCompletionRate st = Num 0)
   \<and> (0 < activeTasks st \<and> activeTasks st + overdueTasks st \<le> 2 ^ 45 \<longrightarrow>
        (\<exists>k. taskCompletionRate st = Num (of_int k)
           \<and> (k = \<lfloor>100 * of_nat (activeTasks st)
                     / of_nat (activeTasks st + overdueTasks st) + 1 / 2 :: rat\<rfloor>
              \<or> k = \<lfloor>100 * of_nat (activeTasks st)
                     / of_nat (activeTasks st + overdueTasks st) + 1 / 2 :: rat\<rfloor> - 1)
           \<and> (\<not> 2 * (activeTasks st + overdueTasks st)
                   dvd 200 * activeTasks st + (activeTasks st + overdueTasks st) \<longrightarrow>
                 k = \<lfloor>100 * of_nat (activeTasks st)
                       / of_nat (activeTasks st + overdueTasks st) + 1 / 2 :: rat\<rfloor>)))"
proof (intro impI)
  assume st: "st = dashboard_stats (derive_dashboard now cc co dd (Some ts) ac)"
  have a: "activeTasks st = count_activeTasks ts"
    and v: "overdueTasks st = count_overdueTasks now ts"
    by (simp_all add: st derive_dashboard_def Let_def)
  have le: "overdueTasks st \<le> activeTasks st"
    by (simp add: a v count_overdue_le_active)
  have p: "(\<lambda>t. is_active t \<and> (case due_date t of None \<Rightarrow> False | Some d \<Rightarrow> d < now))
      = (\<lambda>t. (status t = pending \<or> status t = in_progress) \<and> (\<exists>d. due_date t = Some d \<and> d < now))"
    by (auto simp: is_active_def split: option.splits)
  have c1: "activeTasks st = length (filter (\<lambda>t. status t = pending \<or> status t = in_progress) ts)"
    unfolding a count_activeTasks_def is_active_def ..
  have c2: "overdueTasks st
       = length (filter (\<lambda>t. (status t = pending \<or> status t = in_progress)
                             \<and> (\<exists>d. due_date t = Some d \<and> d < now)) ts)"
    unfolding v count_overdueTasks_def p ..
  have z: "taskCompletionRate st = Num 0" if "activeTasks st = 0"
    using that le by (simp add: taskCompletionRate_def)
  have r: "\<exists>k. taskCompletionRate st = Num (of_int k)
           \<and> (k = \<lfloor>100 * of_nat (activeTasks st)
                     / of_nat (activeTasks st + overdueTasks st) + 1 / 2 :: rat\<rfloor>
              \<or> k = \<lfloor>100 * of_nat (activeTasks st)
                     / of_nat (activeTasks st + overdueTasks st) + 1 / 2 :: rat\<rfloor> - 1)
           \<and> (\<not> 2 * (activeTasks st + overdueTasks st)
                   dvd 200 * activeTasks st + (activeTasks st + overdueTasks st) \<longrightarrow>
                 k = \<lfloor>100 * of_nat (activeTasks st)
                       / of_nat (activeTasks st + overdueTasks st) + 1 / 2 :: rat\<rfloor>)"
    if "0 < activeTasks st \<and> activeTasks st + overdueTasks st \<le> 2 ^ 45"
  proof -
    from that have pos: "0 < activeTasks st" and bd: "activeTasks st + overdueTasks st \<le> 2 ^ 45"
      by simp_all
    have "taskCompletionRate st
        = Math_round (js_mul (js_div (Num (of_nat (activeTasks st)))
                                     (Num (of_nat (activeTasks st + overdueTasks st)))) (Num 100))"
      using pos by (simp add: taskCompletionRate_def count_number_def del: of_nat_add)
    with rate_rounds_half_up [OF pos le bd] show ?thesis by simp
  qed
  from c1 c2 le z r
  show "activeTasks st = length (filter (\<lambda>t. status t = pending \<or> status t = in_progress) ts)
   \<and> overdueTasks st
       = length (filter (\<lambda>t. (status t = pending \<or> status t = in_progress)
                             \<and> (\<exists>d. due_date t = Some d \<and> d < now)) ts)
   \<and> overdueTasks st \<le> activeTasks st
   \<and> (activeTasks st = 0 \<longrightarrow> taskCompletionRate st = Num 0)
   \<and> (0 < activeTasks st \<and> activeTasks st + overdueTasks st \<le> 2 ^ 45 \<longrightarrow>
        (\<exists>k. taskCompletionRate st = Num (of_int k)
           \<and> (k = \<lfloor>100 * of_nat (activeTasks st)
                     / of_nat (activeTasks st + overdueTasks st) + 1 / 2 :: rat\<rfloor>
              \<or> k = \<lfloor>100 * of_nat (activeTasks st)
                     / of_nat (activeTasks st + overdueTasks st) + 1 / 2 :: rat\<rfloor> - 1)
           \<and> (\<not> 2 * (activeTasks st + overdueTasks st)
                   dvd 200 * activeTasks st + (activeTasks st + overdueTasks st) \<longrightarrow>
                 k = \<lfloor>100 * of_nat (activeTasks st)
                       / of_nat (activeTasks st + overdueTasks st) + 1 / 2 :: rat\<rfloor>)))"
    by blast
qed

text \<open>
  C5 as stated fails: with 23 active tasks of which 17 are overdue the rate shown is 57,
  while 100 times 23 over 40 is 57.5 and rounds to 58.
\<close>

theorem rate_57_for_23_active_17_overdue:
  "activeTasks (dashboard_stats (derive_dashboard 2000 None None None (Some twenty_three_tasks) None)) = 23
   \<and> overdueTasks (dashboard_stats (derive_dashboard 2000 None None None (Some twenty_three_tasks) None)) = 17
   \<and> taskCompletionRate (dashboard_stats (derive_dashboard 2000 None None None (Some twenty_three_tasks) None))
       = Num 57
   \<and> \<lfloor>100 * 23 / (23 + 17) + 1 / 2 :: rat\<rfloor> = 58"
  by (simp add: derive_dashboard_def Let_def twenty_three_active seventeen_overdue
      taskCompletionRate_def count_number_def rate_23_17_rnd floor_rat_numeral)

theorem dashboard_task_figures_witness:
  "activeTasks (dashboard_stats (derive_dashboard 2000 None None None (Some [pending_task]) None)) = 1
   \<and> overdueTasks (dashboard_stats (derive_dashboard 2000 None None None (Some [pending_task]) None)) = 1
   \<and> taskCompletionRate (dashboard_stats (derive_dashboard 2000 None None None (Some [pending_task]) None))
       = Num 50"
proof -
  let ?st = "dashboard_stats (derive_dashboard 2000 None None None (Some [pending_task]) None)"
  have a: "activeTasks ?st = 1" and v: "overdueTasks ?st = 1"
    by (simp_all add: derive_dashboard_def Let_def count_activeTasks_def count_overdueTasks_def
        is_active_def pending_task_def)
  have f: "\<lfloor>100 * 1 / (1 + 1) + 1 / 2 :: rat\<rfloor> = 50"
    by (simp add: floor_rat_numeral)
  from dashboard_task_figures [where st = ?st and now = 2000 and cc = None and co = None
      and dd = None and ts = "[pending_task]" and ac = None]
  have "\<exists>k. taskCompletionRate ?st = Num (of_int k) \<and> k = 50"
    using f unfolding a v by simp
  with a v show ?thesis by auto
qed

end
